theory Spec2Isabelle
  imports Main
begin

section \<open>Python values and exceptions\<close>

text \<open>
  The webhook receiver \<^verbatim>\<open>adws/adw_triggers/trigger_webhook.py\<close> works on parsed JSON.
  A parsed JSON value is one of Python's \<^verbatim>\<open>None\<close>, \<^verbatim>\<open>bool\<close>, \<^verbatim>\<open>int\<close>, \<^verbatim>\<open>str\<close>,
  \<^verbatim>\<open>list\<close> and \<^verbatim>\<open>dict\<close>. Numbers are integers (floating point is not modelled) and
  a character is a code point below 256. A \<^verbatim>\<open>dict\<close> is an association list whose first
  entry for a key is the one that counts.
\<close>

datatype json =
    JNull
  | JBool bool
  | JNum int
  | JStr string
  | JArr "json list"
  | JObj "(string \<times> json) list"

text \<open>
  Every Python call returns a value or raises: \<open>Inl\<close> is the raised exception.
  \<open>AttributeError\<close> and \<open>TypeError\<close> are the two that the handler's own expressions
  raise on a value of the wrong type; \<open>OtherError\<close> stands for whatever an external
  collaborator raises (invalid JSON, network, file system, process creation).
\<close>

datatype exn = AttributeError | TypeError | OtherError string

text \<open>\<^verbatim>\<open>bool(x)\<close>, as \<^verbatim>\<open>if x:\<close> and \<^verbatim>\<open>not x\<close> use it.\<close>

fun truthy :: "json \<Rightarrow> bool" where
  "truthy JNull = False"
| "truthy (JBool b) = b"
| "truthy (JNum n) = (n \<noteq> 0)"
| "truthy (JStr s) = (s \<noteq> [])"
| "truthy (JArr xs) = (xs \<noteq> [])"
| "truthy (JObj kvs) = (kvs \<noteq> [])"

text \<open>Truthiness of an \<^verbatim>\<open>Optional[str]\<close>: \<^verbatim>\<open>None\<close> and the empty string are false.\<close>

fun truthy_opt :: "string option \<Rightarrow> bool" where
  "truthy_opt None = False"
| "truthy_opt (Some s) = (s \<noteq> [])"

text \<open>\<^verbatim>\<open>d.get(key, default)\<close> on a dict.\<close>

definition dict_get :: "(string \<times> json) list \<Rightarrow> string \<Rightarrow> json \<Rightarrow> json" where
  "dict_get d k dflt = (case map_of d k of None \<Rightarrow> dflt | Some v \<Rightarrow> v)"

text \<open>\<^verbatim>\<open>x.get(key, default)\<close> on any value: only a dict has the method.\<close>

fun py_get :: "json \<Rightarrow> string \<Rightarrow> json \<Rightarrow> exn + json" where
  "py_get (JObj d) k dflt = Inr (dict_get d k dflt)"
| "py_get _ k dflt = Inl AttributeError"

subsection \<open>Strings\<close>

fun starts_with :: "string \<Rightarrow> string \<Rightarrow> bool" where
  "starts_with s [] = True"
| "starts_with [] (p # ps) = False"
| "starts_with (c # cs) (p # ps) = (c = p \<and> starts_with cs ps)"

text \<open>\<^verbatim>\<open>needle in hay\<close> for two strings: \<open>needle\<close> occurs as a contiguous substring.\<close>

fun str_contains :: "string \<Rightarrow> string \<Rightarrow> bool" where
  "str_contains [] needle = (needle = [])"
| "str_contains (c # cs) needle = (starts_with (c # cs) needle \<or> str_contains cs needle)"

text \<open>
  \<^verbatim>\<open>str.lower()\<close> on code points below 256: the ASCII capitals and the Latin-1 capitals
  (\<open>0xC0\<close> to \<open>0xDE\<close>, the multiplication sign \<open>0xD7\<close> apart) move up by 32.
\<close>

definition lower_char :: "char \<Rightarrow> char" where
  "lower_char c =
     (let n = (of_char c :: nat)
      in if (65 \<le> n \<and> n \<le> 90) \<or> (192 \<le> n \<and> n \<le> 222 \<and> n \<noteq> 215)
         then char_of (n + 32) else c)"

definition str_lower :: "string \<Rightarrow> string" where
  "str_lower s = map lower_char s"

text \<open>
  \<^verbatim>\<open>needle in x\<close> for a string \<open>needle\<close>: substring test on a string, membership on a
  list, key membership on a dict, \<^verbatim>\<open>TypeError\<close> on \<^verbatim>\<open>None\<close>, a bool or a number.
\<close>

fun py_in :: "string \<Rightarrow> json \<Rightarrow> exn + bool" where
  "py_in needle (JStr s) = Inr (str_contains s needle)"
| "py_in needle (JArr xs) = Inr (List.member xs (JStr needle))"
| "py_in needle (JObj kvs) = Inr (List.member (map fst kvs) needle)"
| "py_in needle _ = Inl TypeError"

text \<open>Decimal digits of a natural number and \<^verbatim>\<open>str(n)\<close> of an integer.\<close>

fun digits :: "nat \<Rightarrow> string" where
  "digits n =
     (if n < 10 then [char_of (48 + n)]
      else digits (n div 10) @ [char_of (48 + n mod 10)])"

definition str_int :: "int \<Rightarrow> string" where
  "str_int i = (if i < 0 then CHR ''-'' # digits (nat (- i)) else digits (nat i))"

text \<open>
  \<^verbatim>\<open>str(x)\<close>, which is also what an f-string writes. The text Python prints for a list
  or a dict is its \<^verbatim>\<open>repr\<close>; it is taken as the parameter \<open>crepr\<close>.
\<close>

fun py_str :: "(json \<Rightarrow> string) \<Rightarrow> json \<Rightarrow> string" where
  "py_str crepr JNull = ''None''"
| "py_str crepr (JBool b) = (if b then ''True'' else ''False'')"
| "py_str crepr (JNum n) = str_int n"
| "py_str crepr (JStr s) = s"
| "py_str crepr (JArr xs) = crepr (JArr xs)"
| "py_str crepr (JObj kvs) = crepr (JObj kvs)"

section \<open>The three recovery patterns\<close>

text \<open>
  \<^verbatim>\<open>[a-f0-9]\<close> and \<^verbatim>\<open>\s\<close>. For a \<^verbatim>\<open>str\<close> pattern \<^verbatim>\<open>\s\<close> is Unicode white space; below
  256 that is 9 to 13, 28 to 32, 133 and 160.
\<close>

definition is_hex :: "char \<Rightarrow> bool" where
  "is_hex c = List.member ''abcdef0123456789'' c"

definition is_space :: "char \<Rightarrow> bool" where
  "is_space c =
     (let n = (of_char c :: nat)
      in (9 \<le> n \<and> n \<le> 13) \<or> (28 \<le> n \<and> n \<le> 32) \<or> n = 133 \<or> n = 160)"

text \<open>
  Each piece of a pattern consumes a prefix of the text and returns what is left, or
  \<open>None\<close> when it does not match there.
\<close>

fun lit :: "string \<Rightarrow> string \<Rightarrow> string option" where
  "lit [] s = Some s"
| "lit (p # ps) [] = None"
| "lit (p # ps) (c # cs) = (if c = p then lit ps cs else None)"

fun hexes :: "nat \<Rightarrow> string \<Rightarrow> string option" where
  "hexes 0 s = Some s"
| "hexes (Suc n) [] = None"
| "hexes (Suc n) (c # cs) = (if is_hex c then hexes n cs else None)"

text \<open>
  \<^verbatim>\<open>[a-f0-9]{8}(?:-[a-f0-9]{4}){3}-[a-f0-9]{12}\<close> at the start of the text: the 36
  characters matched and the rest.
\<close>

definition uuid_at :: "string \<Rightarrow> (string \<times> string) option" where
  "uuid_at s =
     (case Option.bind (Option.bind (Option.bind (Option.bind (Option.bind
             (Option.bind (Option.bind (Option.bind (hexes 8 s)
               (lit ''-'')) (hexes 4)) (lit ''-'')) (hexes 4)) (lit ''-'')) (hexes 4))
               (lit ''-'')) (hexes 12) of
        None \<Rightarrow> None
      | Some rest \<Rightarrow> Some (take 36 s, rest))"

text \<open>
  \<^verbatim>\<open>\s*\<close> is greedy, and in both patterns that use it the next piece starts with a
  character that is not white space (a double quote, a hexadecimal digit), so a match
  consumes the whole run of white space.
\<close>

definition skip_spaces :: "string \<Rightarrow> string" where
  "skip_spaces s = dropWhile is_space s"

text \<open>\<^verbatim>\<open>json_pattern\<close>: \<^verbatim>\<open>"adw_id":\s*"(UUID)"\<close>, matched at the start of the text.\<close>

definition json_pattern :: "string \<Rightarrow> string option" where
  "json_pattern s =
     (case lit (CHR 0x22 # ''adw_id'' @ [CHR 0x22] @ '':'') s of
        None \<Rightarrow> None
      | Some r1 \<Rightarrow>
          (case lit [CHR 0x22] (skip_spaces r1) of
             None \<Rightarrow> None
           | Some r2 \<Rightarrow>
               (case uuid_at r2 of
                  None \<Rightarrow> None
                | Some (u, r3) \<Rightarrow>
                    (case lit [CHR 0x22] r3 of None \<Rightarrow> None | Some r4 \<Rightarrow> Some u))))"

text \<open>\<^verbatim>\<open>explicit_pattern\<close>: \<^verbatim>\<open>adw_id:\s*(UUID)\<close>.\<close>

definition explicit_pattern :: "string \<Rightarrow> string option" where
  "explicit_pattern s =
     (case lit ''adw_id:'' s of
        None \<Rightarrow> None
      | Some r1 \<Rightarrow>
          (case uuid_at (skip_spaces r1) of None \<Rightarrow> None | Some (u, r2) \<Rightarrow> Some u))"

text \<open>
  \<^verbatim>\<open>prefix_pattern\<close>: \<^verbatim>\<open>(UUID)_(?:ops|sdlc_planner|sdlc_implementor|adw_classifier):\<close>.
\<close>

definition prefix_pattern :: "string \<Rightarrow> string option" where
  "prefix_pattern s =
     (case uuid_at s of
        None \<Rightarrow> None
      | Some (u, r1) \<Rightarrow>
          (case lit ''_'' r1 of
             None \<Rightarrow> None
           | Some r2 \<Rightarrow>
               (if starts_with r2 ''ops:'' \<or> starts_with r2 ''sdlc_planner:''
                   \<or> starts_with r2 ''sdlc_implementor:'' \<or> starts_with r2 ''adw_classifier:''
                then Some u else None)))"

text \<open>
  \<^verbatim>\<open>re.search(pattern, text)\<close> followed by \<^verbatim>\<open>match.group(1)\<close>: the leftmost position
  where the pattern matches; \<open>None\<close> is no match.
\<close>

fun re_search :: "(string \<Rightarrow> string option) \<Rightarrow> string \<Rightarrow> string option" where
  "re_search pat [] = pat []"
| "re_search pat (c # cs) =
     (case pat (c # cs) of Some g \<Rightarrow> Some g | None \<Rightarrow> re_search pat cs)"

text \<open>\<^verbatim>\<open>re.search\<close> on any value: \<^verbatim>\<open>TypeError\<close> unless the text is a string.\<close>

fun py_re_search :: "(string \<Rightarrow> string option) \<Rightarrow> json \<Rightarrow> exn + string option" where
  "py_re_search pat (JStr s) = Inr (re_search pat s)"
| "py_re_search pat _ = Inl TypeError"

section \<open>The world and the external collaborators\<close>

text \<open>
  The comments the receiver posts all start with \<^verbatim>\<open>ADW_BOT_IDENTIFIER\<close>, the marker
  \<^verbatim>\<open>[ADW-BOT]\<close>; they are kept by kind with the values their text carries: the
  auto-detection notice (the identifier), the missing-identifier notice, and the
  workflow notice (workflow, identifier, trigger reason).
\<close>

definition ADW_BOT_IDENTIFIER :: string where
  "ADW_BOT_IDENTIFIER = ''[ADW-BOT]''"

datatype bot_comment =
    AutoDetectedNotice string
  | MissingIdNotice
  | WorkflowNotice string string string

text \<open>
  What a request can change: the persisted run-state records, keyed by run identifier;
  the comments posted to issues; the loggers set up; the processes launched (each by
  its command line); and how many identifiers \<^verbatim>\<open>make_adw_id\<close> has handed out.
  Output written with \<^verbatim>\<open>print\<close> and to the log is not part of the model.
\<close>

record world =
  state_files :: "string \<rightharpoonup> (string \<rightharpoonup> json)"
  posted :: "(string \<times> bot_comment) list"
  loggers :: "(string \<times> string) list"
  launched :: "string list list"
  ids_made :: nat

text \<open>
  The functions the receiver imports from \<^verbatim>\<open>adw_modules\<close> and from libraries are
  parameters: what each returns or raises on each argument. \<open>make_adw_id\<close> is indexed
  by the number of identifiers made before; \<open>adws_dir\<close> is the directory that holds
  the workflow scripts; \<open>container_repr\<close> is the text of a list or a dict.
\<close>

record env =
  make_adw_id :: "nat \<Rightarrow> string"
  extract_adw_info :: "string \<Rightarrow> string \<Rightarrow> exn + (string option \<times> string option)"
  extract_repo_path :: "exn + string option"
  fetch_issue_comments :: "string \<Rightarrow> json \<Rightarrow> exn + json list"
  make_issue_comment :: "string \<Rightarrow> bot_comment \<Rightarrow> exn + unit"
  setup_logger :: "string \<Rightarrow> string \<Rightarrow> exn + unit"
  popen :: "string list \<Rightarrow> exn + unit"
  adws_dir :: string
  container_repr :: "json \<Rightarrow> string"

text \<open>
  A statement runs in a world and returns a value or raises, in a new world.
  \<open>bindM\<close> is sequencing: an exception skips the rest. \<open>swallow\<close> is
  \<^verbatim>\<open>try: ... except Exception: (log)\<close>: the exception is dropped, what was done before
  it stays done.
\<close>

type_synonym 'a stmt = "world \<Rightarrow> (exn + 'a) \<times> world"

definition returnM :: "'a \<Rightarrow> 'a stmt" where
  "returnM x w = (Inr x, w)"

definition raiseM :: "exn \<Rightarrow> 'a stmt" where
  "raiseM e w = (Inl e, w)"

definition liftM :: "exn + 'a \<Rightarrow> 'a stmt" where
  "liftM r w = (r, w)"

definition bindM :: "'a stmt \<Rightarrow> ('a \<Rightarrow> 'b stmt) \<Rightarrow> 'b stmt" where
  "bindM m f w = (case m w of (Inl e, w') \<Rightarrow> (Inl e, w') | (Inr x, w') \<Rightarrow> f x w')"

definition swallow :: "unit stmt \<Rightarrow> unit stmt" where
  "swallow m w = (case m w of (r, w') \<Rightarrow> (Inr (), w'))"

definition make_adw_id_call :: "env \<Rightarrow> string stmt" where
  "make_adw_id_call en w =
     (Inr (make_adw_id en (ids_made w)), w\<lparr>ids_made := Suc (ids_made w)\<rparr>)"

definition make_issue_comment_call :: "env \<Rightarrow> string \<Rightarrow> bot_comment \<Rightarrow> unit stmt" where
  "make_issue_comment_call en issue_id c w =
     (case make_issue_comment en issue_id c of
        Inl e \<Rightarrow> (Inl e, w)
      | Inr u \<Rightarrow> (Inr (), w\<lparr>posted := posted w @ [(issue_id, c)]\<rparr>))"

definition setup_logger_call :: "env \<Rightarrow> string \<Rightarrow> string \<Rightarrow> unit stmt" where
  "setup_logger_call en ident name w =
     (case setup_logger en ident name of
        Inl e \<Rightarrow> (Inl e, w)
      | Inr u \<Rightarrow> (Inr (), w\<lparr>loggers := loggers w @ [(ident, name)]\<rparr>))"

definition popen_call :: "env \<Rightarrow> string list \<Rightarrow> unit stmt" where
  "popen_call en cmd w =
     (case popen en cmd of
        Inl e \<Rightarrow> (Inl e, w)
      | Inr u \<Rightarrow> (Inr (), w\<lparr>launched := launched w @ [cmd]\<rparr>))"

text \<open>\<^verbatim>\<open>os.path.join(a, b)\<close> on POSIX paths.\<close>

definition path_join :: "string \<Rightarrow> string \<Rightarrow> string" where
  "path_join a b =
     (if starts_with b ''/'' then b
      else if a = [] \<or> last a = CHR ''/'' then a @ b
      else a @ ''/'' @ b)"

subsection \<open>Run state\<close>

text \<open>
  Modelled from the spec: the class \<^verbatim>\<open>ADWState\<close> of \<^verbatim>\<open>adw_modules/state.py\<close>, which is
  not among the sources. The spec describes run state as a persisted mapping keyed by
  run identifier, one record per identifier, read and written as a whole by a
  dictionary merge-and-persist routine. The interface is the one that
  \<^verbatim>\<open>adws/test_workflow_integration.py\<close> uses: the constructor takes the identifier and is
  followed by \<^verbatim>\<open>update\<close> and \<^verbatim>\<open>save\<close> (lines 230 to 236); reading a persisted record is
  the separate class method \<^verbatim>\<open>ADWState.load\<close> (lines 139, 239 and 253), which gives
  \<^verbatim>\<open>None\<close> when nothing is persisted under the identifier. So: a constructed state
  holds only its identifier and reads nothing; \<^verbatim>\<open>update\<close> merges the given fields into
  the fields it holds; \<^verbatim>\<open>save\<close> persists the fields it holds under the identifier, in
  place of what was there; \<^verbatim>\<open>load\<close> gives the persisted record.
\<close>

record adw_state =
  state_id :: string
  data :: "string \<rightharpoonup> json"

definition ADWState :: "string \<Rightarrow> adw_state" where
  "ADWState ident = \<lparr>state_id = ident, data = [''adw_id'' \<mapsto> JStr ident]\<rparr>"

definition state_update :: "adw_state \<Rightarrow> (string \<times> json) list \<Rightarrow> adw_state" where
  "state_update st kwargs = st\<lparr>data := data st ++ map_of (rev kwargs)\<rparr>"

definition state_save ::
  "adw_state \<Rightarrow> (string \<rightharpoonup> (string \<rightharpoonup> json)) \<Rightarrow> (string \<rightharpoonup> (string \<rightharpoonup> json))" where
  "state_save st files = files(state_id st \<mapsto> data st)"

definition state_load :: "(string \<rightharpoonup> (string \<rightharpoonup> json)) \<Rightarrow> string \<Rightarrow> adw_state option" where
  "state_load files ident =
     (case files ident of None \<Rightarrow> None | Some d \<Rightarrow> Some \<lparr>state_id = ident, data = d\<rparr>)"

text \<open>\<^verbatim>\<open>bool(state.data.get(key))\<close>.\<close>

definition data_truthy :: "(string \<rightharpoonup> json) \<Rightarrow> string \<Rightarrow> bool" where
  "data_truthy d k = (case d k of None \<Rightarrow> False | Some v \<Rightarrow> truthy v)"

section \<open>Identifier recovery\<close>

text \<open>
  \<^verbatim>\<open>find_latest_adw_id_in_issue\<close>. The inner loop tries the patterns in the order of the
  list; the outer loop takes the comments in the order \<^verbatim>\<open>fetch_issue_comments\<close> gives
  them (newest first) and returns at the first match.
\<close>

fun search_patterns :: "(string \<Rightarrow> string option) list \<Rightarrow> json \<Rightarrow> exn + string option" where
  "search_patterns [] body = Inr None"
| "search_patterns (p # ps) body =
     (case py_re_search p body of
        Inl e \<Rightarrow> Inl e
      | Inr (Some g) \<Rightarrow> Inr (Some g)
      | Inr None \<Rightarrow> search_patterns ps body)"

definition patterns :: "(string \<Rightarrow> string option) list" where
  "patterns = [json_pattern, explicit_pattern, prefix_pattern]"

fun search_comments :: "json list \<Rightarrow> exn + string option" where
  "search_comments [] = Inr None"
| "search_comments (c # cs) =
     (case py_get c ''body'' (JStr []) of
        Inl e \<Rightarrow> Inl e
      | Inr body \<Rightarrow>
          (case search_patterns patterns body of
             Inl e \<Rightarrow> Inl e
           | Inr (Some g) \<Rightarrow> Inr (Some g)
           | Inr None \<Rightarrow> search_comments cs))"

text \<open>The body of the \<^verbatim>\<open>try\<close> block (lines 78 to 114).\<close>

definition find_latest_try :: "env \<Rightarrow> json \<Rightarrow> exn + string option" where
  "find_latest_try en issue_no =
     (case extract_repo_path en of
        Inl e \<Rightarrow> Inl e
      | Inr None \<Rightarrow> Inr None
      | Inr (Some repo_path) \<Rightarrow>
          (if repo_path = [] then Inr None
           else (case fetch_issue_comments en repo_path issue_no of
                   Inl e \<Rightarrow> Inl e
                 | Inr comments \<Rightarrow>
                     (if comments = [] then Inr None else search_comments comments))))"

text \<open>The function: \<^verbatim>\<open>except Exception\<close> returns \<^verbatim>\<open>None\<close> (lines 116 to 118).\<close>

definition find_latest_adw_id_in_issue :: "env \<Rightarrow> json \<Rightarrow> exn + string option" where
  "find_latest_adw_id_in_issue en issue_no =
     (case find_latest_try en issue_no of Inl e \<Rightarrow> Inr None | Inr r \<Rightarrow> Inr r)"

section \<open>The webhook handler\<close>

text \<open>
  A request: the \<^verbatim>\<open>X-GitHub-Event\<close> header when there is one, and what
  \<^verbatim>\<open>await request.json()\<close> gives, the parsed body or the exception of a body that
  is not JSON.
\<close>

record request =
  x_github_event :: "string option"
  json_body :: "exn + json"

text \<open>The local variables of \<^verbatim>\<open>github_webhook\<close> that outlive the classification.\<close>

record locals =
  event_type :: string
  action :: json
  issue_number :: json
  workflow :: "string option"
  provided_adw_id :: "string option"
  trigger_reason :: string
  content_to_check :: json

text \<open>
  Lines 152 to 154 and 172 to 174: classify a text that contains the trigger with the
  external classifier, under a temporary identifier, and set the trigger reason when a
  workflow comes back.
\<close>

definition classify_text :: "env \<Rightarrow> locals \<Rightarrow> string \<Rightarrow> string \<Rightarrow> locals stmt" where
  "classify_text en l label text =
     bindM (make_adw_id_call en) (\<lambda>temp_id.
     bindM (liftM (extract_adw_info en text temp_id)) (\<lambda>(wfl, pid).
       returnM (l\<lparr>workflow := wfl, provided_adw_id := pid,
                  trigger_reason :=
                    (case wfl of
                       None \<Rightarrow> []
                     | Some name \<Rightarrow>
                         if name = [] then [] else label @ '' with '' @ name @ '' workflow'')\<rparr>)))"

text \<open>
  Lines 144 to 154: an opened issue. \<^verbatim>\<open>issue_body.lower()\<close> raises
  \<^verbatim>\<open>AttributeError\<close> on a body that is not a string.
\<close>

definition classify_issue :: "env \<Rightarrow> locals \<Rightarrow> json \<Rightarrow> locals stmt" where
  "classify_issue en l issue =
     bindM (liftM (py_get issue ''body'' (JStr []))) (\<lambda>issue_body.
       case issue_body of
         JStr text \<Rightarrow>
           if str_contains (str_lower text) ''adw_''
           then classify_text en (l\<lparr>content_to_check := issue_body\<rparr>) ''New issue'' text
           else returnM (l\<lparr>content_to_check := issue_body\<rparr>)
       | _ \<Rightarrow> raiseM AttributeError)"

text \<open>
  Lines 157 to 174: a created comment. The comparison with the bot marker comes first;
  only a comment without it is looked at for the trigger, and there
  \<^verbatim>\<open>comment_body.lower()\<close> raises \<^verbatim>\<open>AttributeError\<close> on a list or a dict.
\<close>

definition classify_comment :: "env \<Rightarrow> locals \<Rightarrow> json \<Rightarrow> locals stmt" where
  "classify_comment en l payload =
     bindM (liftM (py_get payload ''comment'' (JObj []))) (\<lambda>comment.
     bindM (liftM (py_get comment ''body'' (JStr []))) (\<lambda>comment_body.
     bindM (liftM (py_in ADW_BOT_IDENTIFIER comment_body)) (\<lambda>from_bot.
       if from_bot then returnM (l\<lparr>content_to_check := comment_body, workflow := None\<rparr>)
       else
         (case comment_body of
            JStr text \<Rightarrow>
              if str_contains (str_lower text) ''adw_''
              then classify_text en (l\<lparr>content_to_check := comment_body\<rparr>) ''Comment'' text
              else returnM (l\<lparr>content_to_check := comment_body\<rparr>)
          | _ \<Rightarrow> raiseM AttributeError))))"

text \<open>Lines 125 to 175: read the request and classify the event.\<close>

definition classify :: "env \<Rightarrow> request \<Rightarrow> locals stmt" where
  "classify en req =
     bindM (liftM (json_body req)) (\<lambda>payload.
     bindM (liftM (py_get payload ''action'' (JStr []))) (\<lambda>act.
     bindM (liftM (py_get payload ''issue'' (JObj []))) (\<lambda>issue.
     bindM (liftM (py_get issue ''number'' JNull)) (\<lambda>issue_no.
       let ev = (case x_github_event req of None \<Rightarrow> [] | Some h \<Rightarrow> h);
           l = \<lparr>event_type = ev, action = act, issue_number = issue_no,
                workflow = None, provided_adw_id = None, trigger_reason = [],
                content_to_check = JStr []\<rparr>
       in if ev = ''issues'' \<and> act = JStr ''opened'' \<and> truthy issue_no
          then classify_issue en l issue
          else if ev = ''issue_comment'' \<and> act = JStr ''created'' \<and> truthy issue_no
          then classify_comment en l payload
          else returnM l))))"

text \<open>
  Lines 177 to 217: \<^verbatim>\<open>adw_build\<close> without an identifier looks for one in the issue's
  comments. Both notices are posted inside \<^verbatim>\<open>try\<close>/\<^verbatim>\<open>except Exception\<close>.
\<close>

definition autodetect :: "env \<Rightarrow> locals \<Rightarrow> locals stmt" where
  "autodetect en l =
     (if workflow l = Some ''adw_build'' \<and> \<not> truthy_opt (provided_adw_id l)
      then
        bindM (liftM (find_latest_adw_id_in_issue en (issue_number l))) (\<lambda>detected.
          case detected of
            Some ident \<Rightarrow>
              if ident \<noteq> []
              then
                bindM (swallow (make_issue_comment_call en
                         (py_str (container_repr en) (issue_number l))
                         (AutoDetectedNotice ident))) (\<lambda>u.
                  returnM (l\<lparr>provided_adw_id := Some ident\<rparr>))
              else
                bindM (swallow (make_issue_comment_call en
                         (py_str (container_repr en) (issue_number l)) MissingIdNotice)) (\<lambda>u.
                  returnM (l\<lparr>workflow := None\<rparr>))
          | None \<Rightarrow>
              bindM (swallow (make_issue_comment_call en
                       (py_str (container_repr en) (issue_number l)) MissingIdNotice)) (\<lambda>u.
                returnM (l\<lparr>workflow := None\<rparr>)))
      else returnM l)"

text \<open>Lines 125 to 217: the workflow and the identifier the request resolves to.\<close>

definition resolve :: "env \<Rightarrow> request \<Rightarrow> locals stmt" where
  "resolve en req = bindM (classify en req) (autodetect en)"

text \<open>
  Lines 225 to 238: the continuation guard. The state is constructed for the provided
  identifier (line 226); when its \<^verbatim>\<open>branch_name\<close> is set it is left alone, otherwise
  the identifier and the issue number are merged in and it is saved.
\<close>

definition init_state :: "string \<Rightarrow> string \<Rightarrow> unit stmt" where
  "init_state ident issue_str w =
     (let st = ADWState ident
      in if \<not> data_truthy (data st) ''branch_name''
         then (Inr (),
               w\<lparr>state_files :=
                   state_save
                     (state_update st
                        [(''adw_id'', JStr ident), (''issue_number'', JStr issue_str)])
                     (state_files w)\<rparr>)
         else (Inr (), w))"

text \<open>A response is the dict the handler returns.\<close>

type_synonym response = "(string \<times> json) list"

definition accepted_response :: "json \<Rightarrow> string \<Rightarrow> string \<Rightarrow> string \<Rightarrow> string \<Rightarrow> response" where
  "accepted_response issue_no issue_str ident wfl reason =
     [(''status'', JStr ''accepted''),
      (''issue'', issue_no),
      (''adw_id'', JStr ident),
      (''workflow'', JStr wfl),
      (''message'', JStr (''ADW '' @ wfl @ '' workflow triggered for issue #'' @ issue_str)),
      (''reason'', JStr reason),
      (''logs'', JStr (''agents/'' @ ident @ ''/'' @ wfl @ ''/''))]"

definition ignored_response :: "string \<Rightarrow> string \<Rightarrow> response" where
  "ignored_response ev act_str =
     [(''status'', JStr ''ignored''),
      (''reason'',
       JStr (''Not a triggering event (event='' @ ev @ '', action='' @ act_str @ '')''))]"

definition error_response :: response where
  "error_response =
     [(''status'', JStr ''error''),
      (''message'', JStr ''Internal error processing webhook'')]"

text \<open>
  Lines 220 to 289: pick the identifier, guard the state, set up the logger, post the
  notice (inside \<^verbatim>\<open>try\<close>/\<^verbatim>\<open>except Exception\<close>), launch the script and acknowledge.
\<close>

definition launch :: "env \<Rightarrow> locals \<Rightarrow> string \<Rightarrow> response stmt" where
  "launch en l wfl =
     (let issue_str = py_str (container_repr en) (issue_number l)
      in
        bindM (case provided_adw_id l of
                 None \<Rightarrow> make_adw_id_call en
               | Some p \<Rightarrow> if p \<noteq> [] then returnM p else make_adw_id_call en) (\<lambda>ident.
        bindM (case provided_adw_id l of
                 None \<Rightarrow> returnM ()
               | Some p \<Rightarrow> if p \<noteq> [] then init_state p issue_str else returnM ()) (\<lambda>u1.
        bindM (setup_logger_call en ident ''webhook_trigger'') (\<lambda>u2.
        bindM (swallow (make_issue_comment_call en issue_str
                 (WorkflowNotice wfl ident (trigger_reason l)))) (\<lambda>u3.
        bindM (popen_call en
                 [''uv'', ''run'', path_join (adws_dir en) (wfl @ ''.py''), issue_str, ident]) (\<lambda>u4.
          returnM (accepted_response (issue_number l) issue_str ident wfl (trigger_reason l))))))))"

text \<open>Lines 219 to 295: \<^verbatim>\<open>if workflow:\<close> launches, \<^verbatim>\<open>else\<close> ignores.\<close>

definition dispatch :: "env \<Rightarrow> locals \<Rightarrow> response stmt" where
  "dispatch en l =
     (case workflow l of
        None \<Rightarrow>
          returnM (ignored_response (event_type l) (py_str (container_repr en) (action l)))
      | Some wfl \<Rightarrow>
          if wfl \<noteq> [] then launch en l wfl
          else returnM (ignored_response (event_type l) (py_str (container_repr en) (action l))))"

text \<open>The body of the handler's \<^verbatim>\<open>try\<close> block (lines 125 to 295).\<close>

definition github_webhook_try :: "env \<Rightarrow> request \<Rightarrow> response stmt" where
  "github_webhook_try en req = bindM (resolve en req) (dispatch en)"

text \<open>The handler: \<^verbatim>\<open>except Exception\<close> returns the error response (lines 297 to 303).\<close>

definition github_webhook :: "env \<Rightarrow> request \<Rightarrow> response stmt" where
  "github_webhook en req w =
     (case github_webhook_try en req w of
        (Inl e, w') \<Rightarrow> (Inr error_response, w')
      | (Inr r, w') \<Rightarrow> (Inr r, w'))"

text \<open>
  What the web framework answers for a route: status 200 with the returned dict, status
  500 when the handler raises.
\<close>

definition http_status :: "exn + response \<Rightarrow> nat" where
  "http_status r = (case r of Inl e \<Rightarrow> 500 | Inr d \<Rightarrow> 200)"

text \<open>The status field of a response and its field names.\<close>

definition status_of :: "exn + response \<Rightarrow> json" where
  "status_of r = (case r of Inl e \<Rightarrow> JNull | Inr d \<Rightarrow> dict_get d ''status'' JNull)"

definition fields_of :: "exn + response \<Rightarrow> string list" where
  "fields_of r = (case r of Inl e \<Rightarrow> [] | Inr d \<Rightarrow> map fst d)"

section \<open>Vocabulary of the properties\<close>

text \<open>
  The full identifier shape: 36 characters, groups of 8, 4, 4, 4 and 12 characters
  from \<^verbatim>\<open>a-f0-9\<close>, with a hyphen between two groups.
\<close>

definition uuid_shape :: "string \<Rightarrow> bool" where
  "uuid_shape u =
     (length u = 36
      \<and> list_all is_hex (take 8 u) \<and> take 1 (drop 8 u) = ''-''
      \<and> list_all is_hex (take 4 (drop 9 u)) \<and> take 1 (drop 13 u) = ''-''
      \<and> list_all is_hex (take 4 (drop 14 u)) \<and> take 1 (drop 18 u) = ''-''
      \<and> list_all is_hex (take 4 (drop 19 u)) \<and> take 1 (drop 23 u) = ''-''
      \<and> list_all is_hex (drop 24 u))"

text \<open>
  The three patterns in the words of the specification, without a parser. A text starts
  with a JSON field when it reads \<^verbatim>\<open>"adw_id":\<close>, any white space, and a full identifier
  between double quotes; with an explicit mention when it reads \<^verbatim>\<open>adw_id:\<close>, any white
  space and a full identifier; with a prefixed label when it reads a full identifier,
  an underscore, one of the four agent names and a colon.
\<close>

definition json_mention :: "string \<Rightarrow> string \<Rightarrow> bool" where
  "json_mention t g =
     (\<exists>ws rest.
        t = [CHR 0x22] @ ''adw_id'' @ [CHR 0x22] @ '':'' @ ws @ [CHR 0x22] @ g @ [CHR 0x22] @ rest
        \<and> list_all is_space ws \<and> uuid_shape g)"

definition explicit_mention :: "string \<Rightarrow> string \<Rightarrow> bool" where
  "explicit_mention t g =
     (\<exists>ws rest. t = ''adw_id:'' @ ws @ g @ rest \<and> list_all is_space ws \<and> uuid_shape g)"

definition agent_labels :: "string list" where
  "agent_labels = [''ops'', ''sdlc_planner'', ''sdlc_implementor'', ''adw_classifier'']"

definition prefix_label :: "string \<Rightarrow> string \<Rightarrow> bool" where
  "prefix_label t g =
     (\<exists>label rest. t = g @ ''_'' @ label @ '':'' @ rest \<and> label \<in> set agent_labels
        \<and> uuid_shape g)"

text \<open>
  A pattern \<open>P\<close> occurs in a body at position \<open>i\<close> when the text from \<open>i\<close> on starts with
  it. \<open>leftmost P body g\<close>: the leftmost occurrence of \<open>P\<close> in the body carries \<open>g\<close>.
\<close>

definition occurs :: "(string \<Rightarrow> string \<Rightarrow> bool) \<Rightarrow> string \<Rightarrow> bool" where
  "occurs P body = (\<exists>i g. i \<le> length body \<and> P (drop i body) g)"

definition leftmost :: "(string \<Rightarrow> string \<Rightarrow> bool) \<Rightarrow> string \<Rightarrow> string \<Rightarrow> bool" where
  "leftmost P body g =
     (\<exists>i. i \<le> length body \<and> P (drop i body) g \<and> (\<forall>j g'. j < i \<longrightarrow> \<not> P (drop j body) g'))"

text \<open>
  The identifier a comment body carries: that of its leftmost JSON field; when it has
  no JSON field, that of its leftmost explicit mention; when it has neither, that of
  its leftmost prefixed label.
\<close>

definition comment_identifier :: "string \<Rightarrow> string \<Rightarrow> bool" where
  "comment_identifier body g =
     (leftmost json_mention body g
      \<or> (\<not> occurs json_mention body \<and> leftmost explicit_mention body g)
      \<or> (\<not> occurs json_mention body \<and> \<not> occurs explicit_mention body
           \<and> leftmost prefix_label body g))"

text \<open>
  The same, computed. \<open>comment_text\<close> is the body of a comment that is a dict whose
  \<^verbatim>\<open>body\<close> is a string (or is absent: the default is the empty string).
  \<open>first_pattern_match\<close> is what one body gives: the three searches in their priority
  order, the first that finds something. \<open>newest_match\<close> is what a list of bodies,
  newest first, gives: the result of the first body that gives one.
\<close>

definition comment_text :: "json \<Rightarrow> string option" where
  "comment_text c =
     (case c of
        JObj d \<Rightarrow> (case dict_get d ''body'' (JStr []) of JStr s \<Rightarrow> Some s | _ \<Rightarrow> None)
      | _ \<Rightarrow> None)"

definition first_pattern_match :: "string \<Rightarrow> string option" where
  "first_pattern_match body =
     (case re_search json_pattern body of
        Some g \<Rightarrow> Some g
      | None \<Rightarrow>
          (case re_search explicit_pattern body of
             Some g \<Rightarrow> Some g
           | None \<Rightarrow> re_search prefix_pattern body))"

definition newest_match :: "string list \<Rightarrow> string option" where
  "newest_match bodies =
     (case List.find (\<lambda>b. first_pattern_match b \<noteq> None) bodies of
        None \<Rightarrow> None
      | Some b \<Rightarrow> first_pattern_match b)"

text \<open>
  The words of the handler properties. \<open>event_text\<close> is the free text an event
  carries: the issue body of an \<^verbatim>\<open>issues\<close> event, the comment body of an
  \<^verbatim>\<open>issue_comment\<close> event, when it is a string (or absent: the default is the empty
  string). \<open>run_identifier\<close> is the identifier a launch runs under: the provided one,
  or a fresh one when none is provided. \<open>launch_command\<close> is the command line of the
  workflow script.
\<close>

definition event_text :: "string \<Rightarrow> (string \<times> json) list \<Rightarrow> string option" where
  "event_text ev p =
     (if ev = ''issues''
      then (case dict_get p ''issue'' (JObj []) of
              JObj i \<Rightarrow> (case dict_get i ''body'' (JStr []) of JStr t \<Rightarrow> Some t | _ \<Rightarrow> None)
            | _ \<Rightarrow> None)
      else if ev = ''issue_comment''
      then (case dict_get p ''comment'' (JObj []) of
              JObj c \<Rightarrow> (case dict_get c ''body'' (JStr []) of JStr t \<Rightarrow> Some t | _ \<Rightarrow> None)
            | _ \<Rightarrow> None)
      else None)"

text \<open>
  \<open>persisted_field\<close> is a field of the record a later phase loads for an identifier;
  \<open>None\<close> when there is no record or the record has no such field.
\<close>

definition persisted_field :: "world \<Rightarrow> string \<Rightarrow> string \<Rightarrow> json option" where
  "persisted_field w ident k =
     (case state_load (state_files w) ident of None \<Rightarrow> None | Some st \<Rightarrow> data st k)"

definition run_identifier :: "env \<Rightarrow> locals \<Rightarrow> world \<Rightarrow> string" where
  "run_identifier en l w =
     (case provided_adw_id l of
        None \<Rightarrow> make_adw_id en (ids_made w)
      | Some p \<Rightarrow> if p \<noteq> [] then p else make_adw_id en (ids_made w))"

definition launch_command :: "env \<Rightarrow> locals \<Rightarrow> string \<Rightarrow> string \<Rightarrow> string list" where
  "launch_command en l wfl ident =
     [''uv'', ''run'', path_join (adws_dir en) (wfl @ ''.py''),
      py_str (container_repr en) (issue_number l), ident]"

section \<open>Sample inputs\<close>

text \<open>
  Modelled from the spec: \<^verbatim>\<open>extract_adw_info\<close> of \<^verbatim>\<open>adw_modules/workflow_ops.py\<close>,
  which is not among the sources. Only the two worked examples of the spec are fixed:
  the body \<^verbatim>\<open>adw_build 75de9bea\<close> gives the build workflow with the explicit identifier
  \<^verbatim>\<open>75de9bea\<close>, and \<^verbatim>\<open>please run adw_plan_build for this\<close> gives the plan-and-build
  workflow without an identifier. A bare \<^verbatim>\<open>adw_build\<close> gives the build workflow without
  an identifier; any other text gives no workflow.
\<close>

definition example_classifier ::
  "string \<Rightarrow> string \<Rightarrow> exn + (string option \<times> string option)" where
  "example_classifier text temp_id =
     (if text = ''adw_build 75de9bea'' then Inr (Some ''adw_build'', Some ''75de9bea'')
      else if text = ''please run adw_plan_build for this'' then Inr (Some ''adw_plan_build'', None)
      else if text = ''adw_build'' then Inr (Some ''adw_build'', None)
      else Inr (None, None))"

definition sample_uuid :: string where
  "sample_uuid = ''75de9bea-1c2d-4e3f-8a9b-0123456789ab''"

definition older_uuid :: string where
  "older_uuid = ''0f0f0f0f-aaaa-4bbb-8ccc-dddddddddddd''"

text \<open>
  Three comments, newest first. The first carries no identifier. The second starts
  with the label of the older run and holds a JSON field with the identifier of the
  sample run. The third mentions the older run explicitly.
\<close>

definition json_comment_body :: string where
  "json_comment_body =
     older_uuid @ ''_ops: state saved {'' @ [CHR 0x22] @ ''adw_id'' @ [CHR 0x22] @ '': ''
       @ [CHR 0x22] @ sample_uuid @ [CHR 0x22] @ ''}''"

definition explicit_comment_body :: string where
  "explicit_comment_body = ''Starting the run, adw_id: '' @ older_uuid"

definition sample_comments :: "json list" where
  "sample_comments =
     [JObj [(''body'', JStr ''Thanks, looking into it'')],
      JObj [(''body'', JStr json_comment_body)],
      JObj [(''body'', JStr explicit_comment_body)]]"

definition sample_env :: env where
  "sample_env =
     \<lparr>make_adw_id = (\<lambda>n. if n = 0 then ''aaaa0000'' else ''bbbb1111''),
      extract_adw_info = example_classifier,
      extract_repo_path = Inr (Some ''owner/repo''),
      fetch_issue_comments = (\<lambda>repo_path issue_no. Inr sample_comments),
      make_issue_comment = (\<lambda>issue_id c. Inr ()),
      setup_logger = (\<lambda>ident name. Inr ()),
      popen = (\<lambda>cmd. Inr ()),
      adws_dir = ''/repo/adws'',
      container_repr = (\<lambda>j. ''{}'')\<rparr>"

text \<open>The same collaborators, with a comment fetch that fails.\<close>

definition offline_env :: env where
  "offline_env =
     sample_env\<lparr>fetch_issue_comments := (\<lambda>repo_path issue_no. Inl (OtherError ''gh: no network''))\<rparr>"

text \<open>Worlds: nothing persisted yet, and a run whose planning phase has saved its branch.\<close>

definition empty_world :: world where
  "empty_world =
     \<lparr>state_files = Map.empty, posted = [], loggers = [], launched = [], ids_made = 0\<rparr>"


text \<open>Requests on issue 7: a created comment with the given body, an opened issue.\<close>

definition comment_request :: "string \<Rightarrow> request" where
  "comment_request text =
     \<lparr>x_github_event = Some ''issue_comment'',
      json_body = Inr (JObj [(''action'', JStr ''created''),
                            (''issue'', JObj [(''number'', JNum 7)]),
                            (''comment'', JObj [(''body'', JStr text)])])\<rparr>"

definition issue_request :: "string \<Rightarrow> request" where
  "issue_request text =
     \<lparr>x_github_event = Some ''issues'',
      json_body = Inr (JObj [(''action'', JStr ''opened''),
                            (''issue'', JObj [(''number'', JNum 7), (''body'', JStr text)])])\<rparr>"

text \<open>A request whose body is not JSON.\<close>

definition garbage_request :: request where
  "garbage_request =
     \<lparr>x_github_event = Some ''issues'', json_body = Inl (OtherError ''JSONDecodeError'')\<rparr>"

text \<open>An opened issue without a description: GitHub sends \<^verbatim>\<open>null\<close> as its body.\<close>

definition null_body_request :: request where
  "null_body_request =
     \<lparr>x_github_event = Some ''issues'',
      json_body = Inr (JObj [(''action'', JStr ''opened''),
                            (''issue'', JObj [(''number'', JNum 7), (''body'', JNull)])])\<rparr>"

section \<open>Identifier recovery: what is returned\<close>

lemma hexes_split:
  "hexes n s = Some r \<Longrightarrow> \<exists>h. s = h @ r \<and> length h = n \<and> list_all is_hex h"
proof (induction n s rule: hexes.induct)
  case (1 s)
  then show ?case by simp
next
  case (2 n)
  then show ?case by simp
next
  case (3 n c cs)
  then obtain h where "cs = h @ r" "length h = n" "list_all is_hex h"
    by (auto split: if_splits)
  with 3 show ?case
    by (intro exI[of _ "c # h"]) (auto split: if_splits)
qed

lemma lit_split: "lit p s = Some r \<Longrightarrow> s = p @ r"
  by (induction p s rule: lit.induct) (auto split: if_splits)

lemma uuid_at_shape:
  assumes "uuid_at s = Some (u, r)"
  shows "uuid_shape u"
proof -
  from assms obtain r1 r2 r3 r4 r5 r6 r7 r8 where
    h: "hexes 8 s = Some r1" "lit ''-'' r1 = Some r2" "hexes 4 r2 = Some r3"
       "lit ''-'' r3 = Some r4" "hexes 4 r4 = Some r5" "lit ''-'' r5 = Some r6"
       "hexes 4 r6 = Some r7" "lit ''-'' r7 = Some r8" "hexes 12 r8 = Some r"
    and u: "u = take 36 s"
    by (auto simp: uuid_at_def Option.bind_eq_Some_conv split: option.splits)
  from hexes_split[OF h(1)] obtain a where a: "s = a @ r1" "length a = 8" "list_all is_hex a"
    by blast
  from hexes_split[OF h(3)] obtain b where b: "r2 = b @ r3" "length b = 4" "list_all is_hex b"
    by blast
  from hexes_split[OF h(5)] obtain c where c: "r4 = c @ r5" "length c = 4" "list_all is_hex c"
    by blast
  from hexes_split[OF h(7)] obtain d where d: "r6 = d @ r7" "length d = 4" "list_all is_hex d"
    by blast
  from hexes_split[OF h(9)] obtain e where e: "r8 = e @ r" "length e = 12" "list_all is_hex e"
    by blast
  have s: "s = a @ ''-'' @ b @ ''-'' @ c @ ''-'' @ d @ ''-'' @ e @ r"
    using a(1) b(1) c(1) d(1) e(1) lit_split[OF h(2)] lit_split[OF h(4)]
      lit_split[OF h(6)] lit_split[OF h(8)] by simp
  have u': "u = a @ ''-'' @ b @ ''-'' @ c @ ''-'' @ d @ ''-'' @ e"
    unfolding u s using a(2) b(2) c(2) d(2) e(2) by simp
  show ?thesis
    unfolding uuid_shape_def u'
    using a(2,3) b(2,3) c(2,3) d(2,3) e(2,3) by simp
qed

lemma json_pattern_shape: "json_pattern s = Some u \<Longrightarrow> uuid_shape u"
  by (auto simp: json_pattern_def split: option.splits dest: uuid_at_shape)

lemma explicit_pattern_shape: "explicit_pattern s = Some u \<Longrightarrow> uuid_shape u"
  by (auto simp: explicit_pattern_def split: option.splits dest: uuid_at_shape)

lemma prefix_pattern_shape: "prefix_pattern s = Some u \<Longrightarrow> uuid_shape u"
  by (auto simp: prefix_pattern_def split: option.splits if_splits dest: uuid_at_shape)

lemma re_search_shape:
  "(\<And>t v. pat t = Some v \<Longrightarrow> uuid_shape v) \<Longrightarrow> re_search pat s = Some u \<Longrightarrow> uuid_shape u"
  by (induction s) (auto split: option.splits)

lemma re_search_patterns_shape:
  "re_search json_pattern s = Some u \<Longrightarrow> uuid_shape u"
  "re_search explicit_pattern s = Some u \<Longrightarrow> uuid_shape u"
  "re_search prefix_pattern s = Some u \<Longrightarrow> uuid_shape u"
  using re_search_shape json_pattern_shape explicit_pattern_shape prefix_pattern_shape
  by blast+

lemma search_patterns_shape:
  "search_patterns patterns body = Inr (Some u) \<Longrightarrow> uuid_shape u"
  by (cases body)
     (auto simp: patterns_def split: option.splits dest: re_search_patterns_shape)

lemma search_comments_shape:
  "search_comments cs = Inr (Some u) \<Longrightarrow> uuid_shape u"
  by (induction cs) (auto split: sum.splits option.splits dest: search_patterns_shape)

lemma find_latest_try_shape:
  "find_latest_try en n = Inr (Some u) \<Longrightarrow> uuid_shape u"
  by (auto simp: find_latest_try_def split: sum.splits option.splits if_splits
           dest: search_comments_shape)

lemma sample_recovery:
  "find_latest_adw_id_in_issue sample_env (JNum 7) = Inr (Some sample_uuid)"
  by code_simp

text \<open>
  C9. Every identifier that \<^verbatim>\<open>find_latest_adw_id_in_issue\<close> returns has the full
  8-4-4-4-12 shape of lower-case hexadecimal characters, since each of the three
  patterns asks for it; it has 36 characters, so the bare 8-character identifier
  \<^verbatim>\<open>75de9bea\<close> is never what recovery returns.
\<close>

theorem recovered_identifier_is_uuid:
  assumes "find_latest_adw_id_in_issue en n = Inr (Some ident)"
  shows "uuid_shape ident \<and> length ident = 36 \<and> ident \<noteq> ''75de9bea''"
proof -
  from assms have "find_latest_try en n = Inr (Some ident)"
    by (simp add: find_latest_adw_id_in_issue_def split: sum.splits)
  then have "uuid_shape ident" by (rule find_latest_try_shape)
  then show ?thesis by (auto simp: uuid_shape_def)
qed

theorem recovered_identifier_is_uuid_witness:
  "find_latest_adw_id_in_issue sample_env (JNum 7) = Inr (Some sample_uuid)
   \<and> uuid_shape sample_uuid \<and> length sample_uuid = 36 \<and> sample_uuid \<noteq> ''75de9bea''"
  using recovered_identifier_is_uuid [OF sample_recovery] sample_recovery by simp

text \<open>
  C8. When identifier recovery fails, \<^verbatim>\<open>find_latest_adw_id_in_issue\<close> returns
  \<^verbatim>\<open>None\<close> and raises nothing: when the repository path is missing (\<^verbatim>\<open>None\<close> or
  empty), when determining it raises, when fetching the comments raises, and when
  anything else inside the \<^verbatim>\<open>try\<close> block raises.
\<close>

theorem recovery_failure_is_none:
  assumes "extract_repo_path en = Inr None
         \<or> extract_repo_path en = Inr (Some [])
         \<or> (\<exists>e. extract_repo_path en = Inl e)
         \<or> (\<exists>rp e. extract_repo_path en = Inr (Some rp) \<and> fetch_issue_comments en rp n = Inl e)
         \<or> (\<exists>e. find_latest_try en n = Inl e)"
  shows "find_latest_adw_id_in_issue en n = Inr None"
  using assms
  by (auto simp: find_latest_adw_id_in_issue_def find_latest_try_def
           split: sum.splits option.splits)

theorem recovery_failure_is_none_witness:
  "find_latest_adw_id_in_issue offline_env (JNum 7) = Inr None"
proof -
  have "extract_repo_path offline_env = Inr (Some ''owner/repo'')
        \<and> fetch_issue_comments offline_env ''owner/repo'' (JNum 7) = Inl (OtherError ''gh: no network'')"
    by (simp add: offline_env_def sample_env_def)
  then show ?thesis
    using recovery_failure_is_none [of offline_env "JNum 7"] by blast
qed

section \<open>Identifier recovery: which comment decides\<close>

lemma search_patterns_text:
  "search_patterns patterns (JStr s) = Inr (first_pattern_match s)"
  by (simp add: patterns_def first_pattern_match_def split: option.splits)

lemma search_comments_text:
  "map comment_text comments = map Some bodies \<Longrightarrow>
   search_comments comments = Inr (newest_match bodies)"
proof (induction comments arbitrary: bodies)
  case Nil
  then show ?case by (simp add: newest_match_def)
next
  case (Cons c cs)
  then obtain b bs where bodies: "bodies = b # bs" and c: "comment_text c = Some b"
    and rest: "map comment_text cs = map Some bs"
    by (cases bodies) auto
  from c obtain d where d: "c = JObj d" "dict_get d ''body'' (JStr []) = JStr b"
    by (auto simp: comment_text_def split: json.splits)
  show ?case
    using Cons.IH[OF rest] d
    by (cases "first_pattern_match b")
       (simp_all add: bodies search_patterns_text newest_match_def)
qed

lemma newest_match_none:
  "(\<forall>b \<in> set bodies. first_pattern_match b = None) \<Longrightarrow> newest_match bodies = None"
  by (induction bodies) (auto simp: newest_match_def)

lemma newest_match_first:
  "(\<forall>x \<in> set pre. first_pattern_match x = None) \<Longrightarrow> first_pattern_match b = Some g \<Longrightarrow>
   newest_match (pre @ b # post) = Some g"
  by (induction pre) (auto simp: newest_match_def)

subsection \<open>The parsers and the patterns as stated\<close>

lemma hex_not_space: "is_hex c \<Longrightarrow> \<not> is_space c"
  by (auto simp: is_hex_def is_space_def)

lemma quote_not_space: "\<not> is_space (CHR 0x22)"
  by (simp add: is_space_def)

lemma hexes_complete:
  "list_all is_hex h \<Longrightarrow> length h = n \<Longrightarrow> hexes n (h @ r) = Some r"
  by (induction h arbitrary: n) auto

lemma lit_append: "lit p (p @ r) = Some r"
  by (induction p) auto

lemma lit_iff: "lit p s = Some r \<longleftrightarrow> s = p @ r"
  using lit_split lit_append by blast

lemma starts_with_iff: "starts_with s p \<longleftrightarrow> (\<exists>r. s = p @ r)"
  by (induction s p rule: starts_with.induct) auto

lemma skip_spaces_append:
  "list_all is_space ws \<Longrightarrow> \<not> is_space c \<Longrightarrow> skip_spaces (ws @ c # r) = c # r"
  by (induction ws) (auto simp: skip_spaces_def)

lemma skip_spaces_split:
  "\<exists>ws. s = ws @ skip_spaces s \<and> list_all is_space ws"
proof (intro exI conjI)
  show "s = takeWhile is_space s @ skip_spaces s"
    by (simp add: skip_spaces_def)
  show "list_all is_space (takeWhile is_space s)"
    by (auto simp: list_all_iff dest: set_takeWhileD)
qed

lemma drop_take_split: "take k (drop n u) @ drop (k + n) u = drop n u"
  by (metis append_take_drop_id drop_drop)

lemma uuid_shape_parts:
  assumes "uuid_shape g"
  shows "g = take 8 g @ ''-'' @ take 4 (drop 9 g) @ ''-'' @ take 4 (drop 14 g) @ ''-''
             @ take 4 (drop 19 g) @ ''-'' @ drop 24 g"
proof -
  have s: "take 1 (drop 8 g) = ''-''" "take 1 (drop 13 g) = ''-''"
    "take 1 (drop 18 g) = ''-''" "take 1 (drop 23 g) = ''-''"
    using assms by (simp_all add: uuid_shape_def)
  have "take 8 g @ take 1 (drop 8 g) @ take 4 (drop 9 g) @ take 1 (drop 13 g)
          @ take 4 (drop 14 g) @ take 1 (drop 18 g) @ take 4 (drop 19 g)
          @ take 1 (drop 23 g) @ drop 24 g = g"
    using drop_take_split[of 1 23 g] drop_take_split[of 4 19 g] drop_take_split[of 1 18 g]
      drop_take_split[of 4 14 g] drop_take_split[of 1 13 g] drop_take_split[of 4 9 g]
      drop_take_split[of 1 8 g]
    by simp
  then show ?thesis unfolding s by simp
qed

lemma uuid_at_complete:
  assumes "uuid_shape g"
  shows "uuid_at (g @ r) = Some (g, r)"
proof -
  define a where "a = take 8 g"
  define b where "b = take 4 (drop 9 g)"
  define c where "c = take 4 (drop 14 g)"
  define d where "d = take 4 (drop 19 g)"
  define e where "e = drop 24 g"
  have g: "g = a @ ''-'' @ b @ ''-'' @ c @ ''-'' @ d @ ''-'' @ e"
    unfolding a_def b_def c_def d_def e_def by (rule uuid_shape_parts[OF assms])
  have len: "length g = 36" using assms by (simp add: uuid_shape_def)
  have h: "list_all is_hex a" "list_all is_hex b" "list_all is_hex c" "list_all is_hex d"
    "list_all is_hex e"
    using assms by (simp_all add: uuid_shape_def a_def b_def c_def d_def e_def)
  have l: "length a = 8" "length b = 4" "length c = 4" "length d = 4" "length e = 12"
    using len by (simp_all add: a_def b_def c_def d_def e_def)
  have t: "take 36 (g @ r) = g" using len by simp
  have "uuid_at (x @ r) = Some (take 36 (x @ r), r)"
    if "x = a @ ''-'' @ b @ ''-'' @ c @ ''-'' @ d @ ''-'' @ e" for x
    unfolding that uuid_at_def by (simp add: hexes_complete h l)
  from this[OF g] show ?thesis by (simp only: t)
qed

lemma uuid_at_split: "uuid_at s = Some (u, r) \<Longrightarrow> s = u @ r"
proof -
  assume a: "uuid_at s = Some (u, r)"
  then have u: "u = take 36 s"
    by (auto simp: uuid_at_def split: option.splits)
  from a obtain r1 r2 r3 r4 r5 r6 r7 r8 where
    h: "hexes 8 s = Some r1" "lit ''-'' r1 = Some r2" "hexes 4 r2 = Some r3"
       "lit ''-'' r3 = Some r4" "hexes 4 r4 = Some r5" "lit ''-'' r5 = Some r6"
       "hexes 4 r6 = Some r7" "lit ''-'' r7 = Some r8" "hexes 12 r8 = Some r"
    by (auto simp: uuid_at_def Option.bind_eq_Some_conv split: option.splits)
  from hexes_split[OF h(1)] obtain a where a: "s = a @ r1" "length a = 8" by blast
  from hexes_split[OF h(3)] obtain b where b: "r2 = b @ r3" "length b = 4" by blast
  from hexes_split[OF h(5)] obtain c where c: "r4 = c @ r5" "length c = 4" by blast
  from hexes_split[OF h(7)] obtain d where d: "r6 = d @ r7" "length d = 4" by blast
  from hexes_split[OF h(9)] obtain e where e: "r8 = e @ r" "length e = 12" by blast
  define x where "x = a @ ''-'' @ b @ ''-'' @ c @ ''-'' @ d @ ''-'' @ e"
  have s: "s = x @ r"
    using a(1) b(1) c(1) d(1) e(1) lit_split[OF h(2)] lit_split[OF h(4)]
      lit_split[OF h(6)] lit_split[OF h(8)] by (simp add: x_def)
  have "length x = 36"
    using a(2) b(2) c(2) d(2) e(2) by (simp add: x_def)
  then have "take 36 s = x"
    by (simp add: s)
  then show ?thesis using s u by simp
qed

lemma uuid_at_iff: "uuid_at s = Some (u, r) \<longleftrightarrow> s = u @ r \<and> uuid_shape u"
  using uuid_at_split uuid_at_shape uuid_at_complete by blast

lemma uuid_shape_hd: "uuid_shape g \<Longrightarrow> \<exists>c g'. g = c # g' \<and> \<not> is_space c"
  by (cases g) (auto simp: uuid_shape_def dest: hex_not_space)

lemma json_pattern_iff: "json_pattern t = Some g \<longleftrightarrow> json_mention t g"
proof
  assume "json_pattern t = Some g"
  then obtain r1 r2 r3 r4 where
    h: "lit (CHR 0x22 # ''adw_id'' @ [CHR 0x22] @ '':'') t = Some r1"
       "lit [CHR 0x22] (skip_spaces r1) = Some r2"
       "uuid_at r2 = Some (g, r3)" "lit [CHR 0x22] r3 = Some r4"
    by (auto simp: json_pattern_def split: option.splits)
  from skip_spaces_split[of r1] obtain ws where
    ws: "r1 = ws @ skip_spaces r1" "list_all is_space ws" by blast
  have "t = (CHR 0x22 # ''adw_id'' @ [CHR 0x22] @ '':'') @ r1"
    using h(1) by (rule lit_split)
  moreover have "skip_spaces r1 = [CHR 0x22] @ r2" using h(2) by (rule lit_split)
  moreover have "r2 = g @ r3" "uuid_shape g" using h(3) by (simp_all add: uuid_at_iff)
  moreover have "r3 = [CHR 0x22] @ r4" using h(4) by (rule lit_split)
  ultimately have
    "t = [CHR 0x22] @ ''adw_id'' @ [CHR 0x22] @ '':'' @ ws @ [CHR 0x22] @ g @ [CHR 0x22] @ r4"
    using ws(1) by simp
  then show "json_mention t g"
    unfolding json_mention_def using ws(2) \<open>uuid_shape g\<close> by blast
next
  assume "json_mention t g"
  then obtain ws rest where
    t: "t = [CHR 0x22] @ ''adw_id'' @ [CHR 0x22] @ '':'' @ ws @ [CHR 0x22] @ g @ [CHR 0x22] @ rest"
    and ws: "list_all is_space ws" and g: "uuid_shape g"
    unfolding json_mention_def by blast
  have 1: "skip_spaces (ws @ CHR 0x22 # g @ CHR 0x22 # rest) = CHR 0x22 # g @ CHR 0x22 # rest"
    using ws quote_not_space by (rule skip_spaces_append)
  have 2: "uuid_at (g @ CHR 0x22 # rest) = Some (g, CHR 0x22 # rest)"
    using g by (rule uuid_at_complete)
  show "json_pattern t = Some g"
    unfolding t json_pattern_def by (simp add: 1 2)
qed

lemma explicit_pattern_iff: "explicit_pattern t = Some g \<longleftrightarrow> explicit_mention t g"
proof
  assume "explicit_pattern t = Some g"
  then obtain r1 r2 where
    h: "lit ''adw_id:'' t = Some r1" "uuid_at (skip_spaces r1) = Some (g, r2)"
    by (auto simp: explicit_pattern_def split: option.splits)
  from skip_spaces_split[of r1] obtain ws where
    ws: "r1 = ws @ skip_spaces r1" "list_all is_space ws" by blast
  have "t = ''adw_id:'' @ r1" using h(1) by (rule lit_split)
  moreover have "skip_spaces r1 = g @ r2" "uuid_shape g"
    using h(2) by (simp_all add: uuid_at_iff)
  ultimately have "t = ''adw_id:'' @ ws @ g @ r2" using ws(1) by simp
  then show "explicit_mention t g"
    unfolding explicit_mention_def using ws(2) \<open>uuid_shape g\<close> by blast
next
  assume "explicit_mention t g"
  then obtain ws rest where t: "t = ''adw_id:'' @ ws @ g @ rest"
    and ws: "list_all is_space ws" and g: "uuid_shape g"
    unfolding explicit_mention_def by blast
  from uuid_shape_hd[OF g] obtain c g' where c: "g = c # g'" "\<not> is_space c" by blast
  have "skip_spaces (ws @ c # g' @ rest) = c # g' @ rest"
    using ws c(2) by (rule skip_spaces_append)
  then have 1: "skip_spaces (ws @ g @ rest) = g @ rest" by (simp add: c(1))
  have 2: "uuid_at (g @ rest) = Some (g, rest)" using g by (rule uuid_at_complete)
  show "explicit_pattern t = Some g"
    unfolding t explicit_pattern_def by (simp add: 1 2)
qed

lemma starts_with_append: "starts_with (p @ r) p"
  by (simp add: starts_with_iff)

lemma prefix_pattern_iff: "prefix_pattern t = Some g \<longleftrightarrow> prefix_label t g"
proof
  assume "prefix_pattern t = Some g"
  then obtain r1 r2 where
    h: "uuid_at t = Some (g, r1)" "lit ''_'' r1 = Some r2"
       "starts_with r2 ''ops:'' \<or> starts_with r2 ''sdlc_planner:''
        \<or> starts_with r2 ''sdlc_implementor:'' \<or> starts_with r2 ''adw_classifier:''"
    by (auto simp: prefix_pattern_def split: option.splits if_splits)
  have t: "t = g @ r1" "uuid_shape g" using h(1) by (simp_all add: uuid_at_iff)
  have r1: "r1 = ''_'' @ r2" using h(2) by (rule lit_split)
  have "\<exists>label rest. r2 = label @ '':'' @ rest \<and> label \<in> set agent_labels"
    using h(3)
  proof (elim disjE)
    assume "starts_with r2 ''ops:''"
    then obtain rest where "r2 = ''ops'' @ '':'' @ rest"
      unfolding starts_with_iff by auto
    moreover have "''ops'' \<in> set agent_labels" by (simp add: agent_labels_def)
    ultimately show ?thesis by blast
  next
    assume "starts_with r2 ''sdlc_planner:''"
    then obtain rest where "r2 = ''sdlc_planner'' @ '':'' @ rest"
      unfolding starts_with_iff by auto
    moreover have "''sdlc_planner'' \<in> set agent_labels" by (simp add: agent_labels_def)
    ultimately show ?thesis by blast
  next
    assume "starts_with r2 ''sdlc_implementor:''"
    then obtain rest where "r2 = ''sdlc_implementor'' @ '':'' @ rest"
      unfolding starts_with_iff by auto
    moreover have "''sdlc_implementor'' \<in> set agent_labels" by (simp add: agent_labels_def)
    ultimately show ?thesis by blast
  next
    assume "starts_with r2 ''adw_classifier:''"
    then obtain rest where "r2 = ''adw_classifier'' @ '':'' @ rest"
      unfolding starts_with_iff by auto
    moreover have "''adw_classifier'' \<in> set agent_labels" by (simp add: agent_labels_def)
    ultimately show ?thesis by blast
  qed
  then obtain label rest where
    "r2 = label @ '':'' @ rest" "label \<in> set agent_labels" by blast
  then have "t = g @ ''_'' @ label @ '':'' @ rest \<and> label \<in> set agent_labels \<and> uuid_shape g"
    using t r1 by simp
  then show "prefix_label t g"
    unfolding prefix_label_def by blast
next
  assume "prefix_label t g"
  then obtain label rest where t: "t = g @ ''_'' @ label @ '':'' @ rest"
    and l: "label \<in> set agent_labels" and g: "uuid_shape g"
    unfolding prefix_label_def by blast
  define r2 where "r2 = label @ '':'' @ rest"
  have t': "t = g @ CHR ''_'' # r2" by (simp add: t r2_def)
  have 1: "uuid_at (g @ CHR ''_'' # r2) = Some (g, CHR ''_'' # r2)"
    using g by (rule uuid_at_complete)
  from l have "label = ''ops'' \<or> label = ''sdlc_planner'' \<or> label = ''sdlc_implementor''
       \<or> label = ''adw_classifier''"
    by (simp add: agent_labels_def)
  then have 2: "starts_with r2 ''ops:'' \<or> starts_with r2 ''sdlc_planner:''
      \<or> starts_with r2 ''sdlc_implementor:'' \<or> starts_with r2 ''adw_classifier:''"
    using starts_with_append[of "''ops:''" rest]
      starts_with_append[of "''sdlc_planner:''" rest]
      starts_with_append[of "''sdlc_implementor:''" rest]
      starts_with_append[of "''adw_classifier:''" rest]
    unfolding r2_def by (elim disjE) simp_all
  show "prefix_pattern t = Some g"
    unfolding t' prefix_pattern_def using 2 by (simp add: 1)
qed
subsection \<open>The search and the leftmost occurrence\<close>

lemma re_search_Some:
  "re_search pat s = Some g \<longleftrightarrow>
   (\<exists>i. i \<le> length s \<and> pat (drop i s) = Some g \<and> (\<forall>j < i. pat (drop j s) = None))"
proof (induction s)
  case Nil
  then show ?case by simp
next
  case (Cons c cs)
  show ?case
  proof (cases "pat (c # cs)")
    case (Some g')
    have "(\<exists>i. i \<le> length (c # cs) \<and> pat (drop i (c # cs)) = Some g
             \<and> (\<forall>j < i. pat (drop j (c # cs)) = None)) \<longleftrightarrow> g' = g"
    proof
      assume "\<exists>i. i \<le> length (c # cs) \<and> pat (drop i (c # cs)) = Some g
             \<and> (\<forall>j < i. pat (drop j (c # cs)) = None)"
      then obtain i where i: "pat (drop i (c # cs)) = Some g"
        "\<forall>j < i. pat (drop j (c # cs)) = None" by blast
      have "i = 0"
      proof (rule ccontr)
        assume "i \<noteq> 0"
        then have "pat (drop 0 (c # cs)) = None" using i(2) by blast
        then show False using Some by simp
      qed
      then show "g' = g" using i(1) Some by simp
    next
      assume "g' = g"
      then have "0 \<le> length (c # cs) \<and> pat (drop 0 (c # cs)) = Some g
             \<and> (\<forall>j < 0. pat (drop j (c # cs)) = None)"
        using Some by simp
      then show "\<exists>i. i \<le> length (c # cs) \<and> pat (drop i (c # cs)) = Some g
             \<and> (\<forall>j < i. pat (drop j (c # cs)) = None)" by blast
    qed
    then show ?thesis using Some by simp
  next
    case None
    have "(\<exists>i. i \<le> length (c # cs) \<and> pat (drop i (c # cs)) = Some g
             \<and> (\<forall>j < i. pat (drop j (c # cs)) = None))
          \<longleftrightarrow> (\<exists>i. i \<le> length cs \<and> pat (drop i cs) = Some g
             \<and> (\<forall>j < i. pat (drop j cs) = None))"
    proof
      assume "\<exists>i. i \<le> length (c # cs) \<and> pat (drop i (c # cs)) = Some g
             \<and> (\<forall>j < i. pat (drop j (c # cs)) = None)"
      then obtain i where i: "i \<le> length (c # cs)" "pat (drop i (c # cs)) = Some g"
        "\<forall>j < i. pat (drop j (c # cs)) = None" by blast
      from i(2) None obtain k where k: "i = Suc k" by (cases i) auto
      have "\<forall>j < k. pat (drop j cs) = None"
      proof (intro allI impI)
        fix j assume "j < k"
        then have "pat (drop (Suc j) (c # cs)) = None" using i(3) k by blast
        then show "pat (drop j cs) = None" by simp
      qed
      then have "k \<le> length cs \<and> pat (drop k cs) = Some g \<and> (\<forall>j < k. pat (drop j cs) = None)"
        using i(1,2) k by simp
      then show "\<exists>i. i \<le> length cs \<and> pat (drop i cs) = Some g
             \<and> (\<forall>j < i. pat (drop j cs) = None)" by blast
    next
      assume "\<exists>i. i \<le> length cs \<and> pat (drop i cs) = Some g
             \<and> (\<forall>j < i. pat (drop j cs) = None)"
      then obtain k where k: "k \<le> length cs" "pat (drop k cs) = Some g"
        "\<forall>j < k. pat (drop j cs) = None" by blast
      have "\<forall>j < Suc k. pat (drop j (c # cs)) = None"
      proof (intro allI impI)
        fix j assume j: "j < Suc k"
        show "pat (drop j (c # cs)) = None"
        proof (cases j)
          case 0
          then show ?thesis using None by simp
        next
          case (Suc m)
          then show ?thesis using j k(3) by simp
        qed
      qed
      then have "Suc k \<le> length (c # cs) \<and> pat (drop (Suc k) (c # cs)) = Some g
             \<and> (\<forall>j < Suc k. pat (drop j (c # cs)) = None)"
        using k(1,2) by simp
      then show "\<exists>i. i \<le> length (c # cs) \<and> pat (drop i (c # cs)) = Some g
             \<and> (\<forall>j < i. pat (drop j (c # cs)) = None)" by blast
    qed
    then show ?thesis using None Cons.IH by simp
  qed
qed

lemma re_search_leftmost:
  assumes "\<And>t g. pat t = Some g \<longleftrightarrow> P t g"
  shows "re_search pat body = Some g \<longleftrightarrow> leftmost P body g"
proof -
  have n: "pat t = None \<longleftrightarrow> (\<forall>g'. \<not> P t g')" for t
    using assms[of t] by (cases "pat t") auto
  show ?thesis
    unfolding re_search_Some leftmost_def n assms by blast
qed

lemma leftmost_occurs: "leftmost P body g \<Longrightarrow> occurs P body"
  unfolding leftmost_def occurs_def by blast

lemma occurs_leftmost:
  assumes "occurs P body"
  shows "\<exists>g. leftmost P body g"
proof -
  define Q where "Q i = (i \<le> length body \<and> (\<exists>g. P (drop i body) g))" for i
  from assms have "\<exists>i. Q i" unfolding occurs_def Q_def by blast
  then obtain i where i: "Q i" "\<forall>j < i. \<not> Q j"
    using exists_least_iff[of Q] by blast
  from i(1) obtain g where g: "i \<le> length body" "P (drop i body) g"
    unfolding Q_def by blast
  have "\<forall>j g'. j < i \<longrightarrow> \<not> P (drop j body) g'"
  proof (intro allI impI)
    fix j g' assume j: "j < i"
    then have "\<not> Q j" using i(2) by blast
    moreover have "j \<le> length body" using j g(1) by simp
    ultimately show "\<not> P (drop j body) g'" unfolding Q_def by blast
  qed
  then show ?thesis unfolding leftmost_def using g by blast
qed

lemma re_search_None:
  assumes "\<And>t g. pat t = Some g \<longleftrightarrow> P t g"
  shows "re_search pat body = None \<longleftrightarrow> \<not> occurs P body"
proof -
  have "re_search pat body = None \<longleftrightarrow> (\<forall>g. \<not> leftmost P body g)"
    using re_search_leftmost[of pat P body, OF assms]
    by (cases "re_search pat body") auto
  then show ?thesis using leftmost_occurs occurs_leftmost by blast
qed

lemma first_pattern_match_iff:
  "first_pattern_match body = Some g \<longleftrightarrow> comment_identifier body g"
proof -
  note j = re_search_leftmost[of json_pattern json_mention, OF json_pattern_iff]
  note e = re_search_leftmost[of explicit_pattern explicit_mention, OF explicit_pattern_iff]
  note p = re_search_leftmost[of prefix_pattern prefix_label, OF prefix_pattern_iff]
  note jn = re_search_None[of json_pattern json_mention, OF json_pattern_iff]
  note en = re_search_None[of explicit_pattern explicit_mention, OF explicit_pattern_iff]
  show ?thesis
  proof (cases "re_search json_pattern body")
    case (Some g')
    then have "leftmost json_mention body g'" using j by simp
    then have "occurs json_mention body" by (rule leftmost_occurs)
    then show ?thesis
      unfolding first_pattern_match_def comment_identifier_def
      using Some j[of body g] by simp
  next
    case None
    then have nj: "\<not> occurs json_mention body" using jn by simp
    then have nl: "\<not> leftmost json_mention body g" using leftmost_occurs by blast
    show ?thesis
    proof (cases "re_search explicit_pattern body")
      case (Some g')
      then have "leftmost explicit_mention body g'" using e by simp
      then have "occurs explicit_mention body" by (rule leftmost_occurs)
      then show ?thesis
        unfolding first_pattern_match_def comment_identifier_def
        using None Some nj nl e[of body g] by simp
    next
      case None2: None
      then have ne: "\<not> occurs explicit_mention body" using en by simp
      then have nle: "\<not> leftmost explicit_mention body g" using leftmost_occurs by blast
      show ?thesis
        unfolding first_pattern_match_def comment_identifier_def
        using None None2 nj nl ne nle p[of body g] by simp
    qed
  qed
qed

lemma first_pattern_match_None:
  "first_pattern_match body = None \<longleftrightarrow> (\<forall>g. \<not> comment_identifier body g)"
  using first_pattern_match_iff[of body] by (cases "first_pattern_match body") auto

subsection \<open>The newest comment with an identifier\<close>

lemma sample_body_mentions:
  "leftmost json_mention json_comment_body sample_uuid"
  "leftmost prefix_label json_comment_body older_uuid"
  "leftmost explicit_mention explicit_comment_body older_uuid"
proof -
  have "re_search json_pattern json_comment_body = Some sample_uuid" by code_simp
  then show "leftmost json_mention json_comment_body sample_uuid"
    using re_search_leftmost[of json_pattern json_mention, OF json_pattern_iff] by simp
  have "re_search prefix_pattern json_comment_body = Some older_uuid" by code_simp
  then show "leftmost prefix_label json_comment_body older_uuid"
    using re_search_leftmost[of prefix_pattern prefix_label, OF prefix_pattern_iff] by simp
  have "re_search explicit_pattern explicit_comment_body = Some older_uuid" by code_simp
  then show "leftmost explicit_mention explicit_comment_body older_uuid"
    using re_search_leftmost[of explicit_pattern explicit_mention, OF explicit_pattern_iff]
    by simp
qed

text \<open>
  C3. When the repository path is known and the comments are fetched, a non-empty list
  of comments, scanned newest first, gives the identifier of the newest comment that
  carries one, and none when no comment carries one. The identifier a comment carries
  follows the priority of the three patterns: its leftmost JSON field
  \<^verbatim>\<open>"adw_id": "<identifier>"\<close>; without a JSON field, its leftmost explicit mention
  \<^verbatim>\<open>adw_id: <identifier>\<close>; without either, its leftmost label
  \<^verbatim>\<open><identifier>_<agent>:\<close>. The three patterns are stated by \<open>json_mention\<close>,
  \<open>explicit_mention\<close> and \<open>prefix_label\<close>, not by the parsers of the model.
\<close>

theorem recovery_returns_newest_match:
  assumes "extract_repo_path en = Inr (Some rp)" and "rp \<noteq> []"
    and "fetch_issue_comments en rp n = Inr comments" and "comments \<noteq> []"
    and "map comment_text comments = map Some bodies"
  shows "((\<forall>b \<in> set bodies. \<forall>g. \<not> comment_identifier b g) \<longrightarrow>
            find_latest_adw_id_in_issue en n = Inr None)
       \<and> (\<forall>pre b post g.
            bodies = pre @ b # post \<and> (\<forall>x \<in> set pre. \<forall>g'. \<not> comment_identifier x g')
              \<and> comment_identifier b g \<longrightarrow>
            find_latest_adw_id_in_issue en n = Inr (Some g))"
proof -
  have r: "find_latest_adw_id_in_issue en n = Inr (newest_match bodies)"
    using assms search_comments_text[OF assms(5)]
    by (simp add: find_latest_adw_id_in_issue_def find_latest_try_def)
  have none: "newest_match bodies = None"
    if "\<forall>b \<in> set bodies. \<forall>g. \<not> comment_identifier b g"
    using that by (intro newest_match_none) (simp add: first_pattern_match_None)
  have first: "newest_match bodies = Some g"
    if "bodies = pre @ b # post" "\<forall>x \<in> set pre. \<forall>g'. \<not> comment_identifier x g'"
      "comment_identifier b g" for pre b post g
    unfolding that(1)
    using that(2,3)
    by (intro newest_match_first) (simp_all add: first_pattern_match_None first_pattern_match_iff)
  show ?thesis
    unfolding r using none first by blast
qed

theorem recovery_returns_newest_match_witness:
  "comment_identifier json_comment_body sample_uuid
   \<and> find_latest_adw_id_in_issue sample_env (JNum 7) = Inr (Some sample_uuid)"
proof -
  let ?b1 = "''Thanks, looking into it''"
  have h1: "extract_repo_path sample_env = Inr (Some ''owner/repo'')"
    and h2: "''owner/repo'' \<noteq> []"
    and h3: "fetch_issue_comments sample_env ''owner/repo'' (JNum 7) = Inr sample_comments"
    and h4: "sample_comments \<noteq> []"
    by (simp_all add: sample_env_def sample_comments_def)
  have h5: "map comment_text sample_comments
              = map Some [?b1, json_comment_body, explicit_comment_body]"
    by (simp add: sample_comments_def comment_text_def dict_get_def)
  have "first_pattern_match ?b1 = None" by code_simp
  then have m1: "\<forall>x \<in> set [?b1]. \<forall>g'. \<not> comment_identifier x g'"
    by (simp add: first_pattern_match_None)
  have "first_pattern_match json_comment_body = Some sample_uuid" by code_simp
  then have m2: "comment_identifier json_comment_body sample_uuid"
    by (simp add: first_pattern_match_iff)
  have split: "[?b1, json_comment_body, explicit_comment_body]
                 = [?b1] @ json_comment_body # [explicit_comment_body]" by simp
  from recovery_returns_newest_match [OF h1 h2 h3 h4 h5] split m1 m2
  show ?thesis by blast
qed

section \<open>The handler: what each phase can change\<close>

lemmas stmt_defs = returnM_def raiseM_def liftM_def bindM_def swallow_def
  make_adw_id_call_def make_issue_comment_call_def setup_logger_call_def popen_call_def

lemma classify_text_frame:
  "classify_text en l label text w = (r, w1) \<Longrightarrow>
   state_files w1 = state_files w \<and> posted w1 = posted w \<and> loggers w1 = loggers w
   \<and> launched w1 = launched w"
  by (auto simp: classify_text_def stmt_defs split: sum.splits prod.splits)

lemma classify_issue_frame:
  "classify_issue en l issue w = (r, w1) \<Longrightarrow>
   state_files w1 = state_files w \<and> posted w1 = posted w \<and> loggers w1 = loggers w
   \<and> launched w1 = launched w"
  by (auto simp: classify_issue_def stmt_defs split: sum.splits json.splits if_splits
           dest: classify_text_frame)

lemma classify_comment_frame:
  "classify_comment en l payload w = (r, w1) \<Longrightarrow>
   state_files w1 = state_files w \<and> posted w1 = posted w \<and> loggers w1 = loggers w
   \<and> launched w1 = launched w"
  by (auto simp: classify_comment_def stmt_defs split: sum.splits json.splits if_splits
           dest: classify_text_frame)

lemma classify_frame:
  "classify en req w = (r, w1) \<Longrightarrow>
   state_files w1 = state_files w \<and> posted w1 = posted w \<and> loggers w1 = loggers w
   \<and> launched w1 = launched w"
  by (auto simp: classify_def stmt_defs Let_def split: sum.splits if_splits
           dest: classify_issue_frame classify_comment_frame)

lemma autodetect_frame:
  "autodetect en l w = (r, w1) \<Longrightarrow>
   state_files w1 = state_files w \<and> loggers w1 = loggers w \<and> launched w1 = launched w
   \<and> ids_made w1 = ids_made w"
  by (auto simp: autodetect_def stmt_defs split: sum.splits option.splits if_splits prod.splits)

lemma resolve_frame:
  assumes "resolve en req w = (r, w1)"
  shows "state_files w1 = state_files w \<and> loggers w1 = loggers w \<and> launched w1 = launched w"
proof (cases "classify en req w")
  case (Pair c wc)
  note cf = classify_frame[OF Pair]
  show ?thesis
  proof (cases c)
    case (Inl e)
    with Pair assms cf show ?thesis by (simp add: resolve_def bindM_def)
  next
    case (Inr l)
    with Pair assms have "autodetect en l wc = (r, w1)" by (simp add: resolve_def bindM_def)
    from autodetect_frame[OF this] cf show ?thesis by simp
  qed
qed

lemma dispatch_ignored:
  "\<not> truthy_opt (workflow l) \<Longrightarrow>
   dispatch en l w =
     (Inr (ignored_response (event_type l) (py_str (container_repr en) (action l))), w)"
  by (cases "workflow l") (auto simp: dispatch_def returnM_def)

lemma dispatch_launches:
  "workflow l = Some wfl \<Longrightarrow> wfl \<noteq> [] \<Longrightarrow> dispatch en l w = launch en l wfl w"
  by (simp add: dispatch_def)

lemma autodetect_no_workflow:
  "workflow l = None \<Longrightarrow> autodetect en l w = (Inr l, w)"
  by (simp add: autodetect_def returnM_def)

lemma webhook_resolve_Inl:
  "resolve en req w = (Inl e, w1) \<Longrightarrow> github_webhook en req w = (Inr error_response, w1)"
  by (simp add: github_webhook_def github_webhook_try_def bindM_def)

lemma webhook_resolve_Inr:
  "resolve en req w = (Inr l, w1) \<Longrightarrow>
   github_webhook en req w =
     (case dispatch en l w1 of
        (Inl e, w2) \<Rightarrow> (Inr error_response, w2)
      | (Inr r, w2) \<Rightarrow> (Inr r, w2))"
  by (simp add: github_webhook_def github_webhook_try_def bindM_def)

lemma webhook_no_workflow:
  assumes "resolve en req w = (Inr l, w1)" and "\<not> truthy_opt (workflow l)"
  shows "github_webhook en req w =
     (Inr (ignored_response (event_type l) (py_str (container_repr en) (action l))), w1)"
  using webhook_resolve_Inr[OF assms(1)] dispatch_ignored[OF assms(2)] by simp

lemma status_simps:
  "status_of (Inr error_response) = JStr ''error''"
  "status_of (Inr (ignored_response ev a)) = JStr ''ignored''"
  "status_of (Inr (accepted_response n ns i wn rs)) = JStr ''accepted''"
  by (simp_all add: status_of_def error_response_def ignored_response_def
        accepted_response_def dict_get_def)

lemma fields_simps:
  "fields_of (Inr error_response) = [''status'', ''message'']"
  "fields_of (Inr (ignored_response ev a)) = [''status'', ''reason'']"
  "fields_of (Inr (accepted_response n ns i wn rs)) =
     [''status'', ''issue'', ''adw_id'', ''workflow'', ''message'', ''reason'', ''logs'']"
  by (simp_all add: fields_of_def error_response_def ignored_response_def accepted_response_def)

subsection \<open>The launch\<close>

lemma launch_fresh_state:
  assumes "launch en l wfl w = (r, w1)" and "\<not> truthy_opt (provided_adw_id l)"
  shows "state_files w1 = state_files w"
  using assms
  by (cases "provided_adw_id l")
     (auto simp: launch_def stmt_defs Let_def split: sum.splits if_splits prod.splits)

lemma launch_provided_state:
  assumes "launch en l wfl w = (r, w1)" and "provided_adw_id l = Some p" and "p \<noteq> []"
  shows "state_files w1 =
         (if data_truthy (data (ADWState p)) ''branch_name''
          then state_files w
          else state_save (state_update (ADWState p)
                 [(''adw_id'', JStr p),
                  (''issue_number'', JStr (py_str (container_repr en) (issue_number l)))])
                 (state_files w))"
  using assms
  by (auto simp: launch_def stmt_defs init_state_def Let_def
           split: sum.splits if_splits prod.splits)

lemma launch_raises:
  assumes "launch en l wfl w = (Inl e, w1)"
  shows "launched w1 = launched w"
  using assms
  by (cases "provided_adw_id l")
     (auto simp: launch_def stmt_defs init_state_def Let_def
           split: sum.splits if_splits prod.splits)

lemma launch_returns:
  assumes "launch en l wfl w = (Inr resp, w1)"
  shows "resp = accepted_response (issue_number l) (py_str (container_repr en) (issue_number l))
                  (run_identifier en l w) wfl (trigger_reason l)
       \<and> launched w1 = launched w @ [launch_command en l wfl (run_identifier en l w)]"
  using assms
  by (cases "provided_adw_id l")
     (auto simp: launch_def stmt_defs init_state_def Let_def run_identifier_def
           launch_command_def split: sum.splits if_splits prod.splits)

lemma minimal_record_saved:
  "state_save (state_update (ADWState p) [(''adw_id'', JStr p), (''issue_number'', JStr s)])
     files =
   files(p \<mapsto> [''adw_id'' \<mapsto> JStr p, ''issue_number'' \<mapsto> JStr s])"
  by (simp add: ADWState_def state_update_def state_save_def)

lemma constructed_state_has_no_branch:
  "\<not> data_truthy (data (ADWState p)) ''branch_name''"
  by (simp add: ADWState_def data_truthy_def)

lemma dispatch_shape:
  assumes "dispatch en l w = (Inr resp, w1)"
  shows "(\<exists>ev a. resp = ignored_response ev a)
       \<or> (\<exists>n ns i wn rs. resp = accepted_response n ns i wn rs)"
proof (cases "truthy_opt (workflow l)")
  case False
  from dispatch_ignored[OF this, of en w] assms show ?thesis by auto
next
  case True
  then obtain wfl where "workflow l = Some wfl" "wfl \<noteq> []" by (cases "workflow l") auto
  from dispatch_launches[OF this, of en w] assms launch_returns show ?thesis by metis
qed

lemma webhook_shape:
  "\<exists>resp w1. github_webhook en req w = (Inr resp, w1)
     \<and> (resp = error_response \<or> (\<exists>ev a. resp = ignored_response ev a)
        \<or> (\<exists>n ns i wn rs. resp = accepted_response n ns i wn rs))"
proof (cases "github_webhook_try en req w")
  case (Pair r w1)
  show ?thesis
  proof (cases r)
    case (Inl e)
    with Pair show ?thesis by (simp add: github_webhook_def)
  next
    case (Inr resp)
    with Pair obtain l w0 where "dispatch en l w0 = (Inr resp, w1)"
      by (auto simp: github_webhook_try_def bindM_def split: sum.splits prod.splits)
    from dispatch_shape[OF this] Pair Inr show ?thesis by (simp add: github_webhook_def)
  qed
qed

section \<open>The handler: events that dispatch nothing\<close>

lemma classify_bot_comment:
  assumes "x_github_event req = Some ''issue_comment''"
    and "json_body req = Inr (JObj p)"
    and "dict_get p ''action'' (JStr []) = JStr ''created''"
    and "dict_get p ''comment'' (JObj []) = JObj c"
    and "dict_get c ''body'' (JStr []) = JStr text"
    and "str_contains text ADW_BOT_IDENTIFIER"
  shows "(\<exists>e. classify en req w = (Inl e, w))
       \<or> (\<exists>l. classify en req w = (Inr l, w) \<and> workflow l = None)"
  using assms
  by (cases "dict_get p ''issue'' (JObj [])")
     (auto simp: classify_def classify_comment_def stmt_defs Let_def)

text \<open>
  C4. An \<^verbatim>\<open>issue_comment\<close> event with action \<^verbatim>\<open>created\<close> whose comment body contains
  the bot marker \<^verbatim>\<open>[ADW-BOT]\<close> dispatches no workflow: the handler launches no process
  and its response is not \<^verbatim>\<open>accepted\<close>, whatever else the comment contains.
\<close>

theorem bot_comment_never_dispatches:
  assumes "x_github_event req = Some ''issue_comment''"
    and "json_body req = Inr (JObj p)"
    and "dict_get p ''action'' (JStr []) = JStr ''created''"
    and "dict_get p ''comment'' (JObj []) = JObj c"
    and "dict_get c ''body'' (JStr []) = JStr text"
    and "str_contains text ADW_BOT_IDENTIFIER"
  shows "launched (snd (github_webhook en req w)) = launched w
       \<and> status_of (fst (github_webhook en req w)) \<noteq> JStr ''accepted''"
proof -
  from classify_bot_comment[OF assms, of en w]
  consider e where "classify en req w = (Inl e, w)"
    | l where "classify en req w = (Inr l, w)" "workflow l = None"
    by blast
  then show ?thesis
  proof cases
    case 1
    then have "resolve en req w = (Inl e, w)" by (simp add: resolve_def bindM_def)
    from webhook_resolve_Inl[OF this] show ?thesis by (simp add: status_simps)
  next
    case 2
    then have r: "resolve en req w = (Inr l, w)"
      by (simp add: resolve_def bindM_def autodetect_no_workflow)
    from 2 have "\<not> truthy_opt (workflow l)" by simp
    from webhook_no_workflow[OF r this] show ?thesis by (simp add: status_simps)
  qed
qed

theorem bot_comment_never_dispatches_witness:
  "launched (snd (github_webhook sample_env
      (comment_request ''[ADW-BOT] Detected adw_build 75de9bea'') empty_world)) = launched empty_world
   \<and> status_of (fst (github_webhook sample_env
      (comment_request ''[ADW-BOT] Detected adw_build 75de9bea'') empty_world)) \<noteq> JStr ''accepted''"
proof -
  let ?text = "''[ADW-BOT] Detected adw_build 75de9bea''"
  let ?c = "[(''body'', JStr ?text)]"
  let ?p = "[(''action'', JStr ''created''), (''issue'', JObj [(''number'', JNum 7)]),
             (''comment'', JObj ?c)]"
  have h1: "x_github_event (comment_request ?text) = Some ''issue_comment''"
    and h2: "json_body (comment_request ?text) = Inr (JObj ?p)"
    and h3: "dict_get ?p ''action'' (JStr []) = JStr ''created''"
    and h4: "dict_get ?p ''comment'' (JObj []) = JObj ?c"
    and h5: "dict_get ?c ''body'' (JStr []) = JStr ?text"
    by (simp_all add: comment_request_def dict_get_def)
  have h6: "str_contains ?text ADW_BOT_IDENTIFIER" by code_simp
  show ?thesis by (rule bot_comment_never_dispatches [OF h1 h2 h3 h4 h5 h6])
qed

lemma classify_not_triggering:
  assumes "json_body req = Inr (JObj p)"
    and "dict_get p ''issue'' (JObj []) = JObj i"
    and "ev = (case x_github_event req of None \<Rightarrow> [] | Some h \<Rightarrow> h)"
    and "act = dict_get p ''action'' (JStr [])"
    and "\<not> ((ev = ''issues'' \<and> act = JStr ''opened'')
            \<or> (ev = ''issue_comment'' \<and> act = JStr ''created''))
       \<or> (\<exists>text. event_text ev p = Some text \<and> \<not> str_contains (str_lower text) ''adw_'')"
  shows "\<exists>l. classify en req w = (Inr l, w) \<and> workflow l = None
            \<and> event_type l = ev \<and> action l = act"
  using assms
  by (auto simp: classify_def classify_issue_def classify_comment_def stmt_defs Let_def
        event_text_def split: json.splits if_splits)

text \<open>
  An event, a JSON object whose \<^verbatim>\<open>issue\<close> is an object or absent, is ignored when its
  type and action are neither \<^verbatim>\<open>issues\<close>/\<^verbatim>\<open>opened\<close> nor \<^verbatim>\<open>issue_comment\<close>/\<^verbatim>\<open>created\<close>,
  or when its text is a string that, lower-cased, does not contain \<^verbatim>\<open>adw_\<close>: no
  workflow is selected, the response is the \<^verbatim>\<open>ignored\<close> one, and the world is as before.
\<close>

lemma text_event_without_trigger_is_ignored:
  assumes "json_body req = Inr (JObj p)"
    and "dict_get p ''issue'' (JObj []) = JObj i"
    and "ev = (case x_github_event req of None \<Rightarrow> [] | Some h \<Rightarrow> h)"
    and "act = dict_get p ''action'' (JStr [])"
    and "\<not> ((ev = ''issues'' \<and> act = JStr ''opened'')
            \<or> (ev = ''issue_comment'' \<and> act = JStr ''created''))
       \<or> (\<exists>text. event_text ev p = Some text \<and> \<not> str_contains (str_lower text) ''adw_'')"
  shows "(\<exists>l. resolve en req w = (Inr l, w) \<and> workflow l = None)
       \<and> github_webhook en req w = (Inr (ignored_response ev (py_str (container_repr en) act)), w)
       \<and> status_of (fst (github_webhook en req w)) = JStr ''ignored''
       \<and> launched (snd (github_webhook en req w)) = launched w"
proof -
  from classify_not_triggering[OF assms, of en w] obtain l where
    l: "classify en req w = (Inr l, w)" "workflow l = None" "event_type l = ev" "action l = act"
    by blast
  then have r: "resolve en req w = (Inr l, w)"
    by (simp add: resolve_def bindM_def autodetect_no_workflow)
  from l have "\<not> truthy_opt (workflow l)" by simp
  from webhook_no_workflow[OF r this] r l show ?thesis by (simp add: status_simps)
qed

lemma text_event_without_trigger_example:
  "github_webhook sample_env (issue_request ''Please fix the typo in ADW docs'') empty_world =
     (Inr (ignored_response ''issues'' ''opened''), empty_world)"
proof -
  let ?text = "''Please fix the typo in ADW docs''"
  let ?i = "[(''number'', JNum 7), (''body'', JStr ?text)]"
  let ?p = "[(''action'', JStr ''opened''), (''issue'', JObj ?i)]"
  have h1: "json_body (issue_request ?text) = Inr (JObj ?p)"
    and h2: "dict_get ?p ''issue'' (JObj []) = JObj ?i"
    and h3: "''issues'' = (case x_github_event (issue_request ?text) of None \<Rightarrow> [] | Some h \<Rightarrow> h)"
    and h4: "JStr ''opened'' = dict_get ?p ''action'' (JStr [])"
    by (simp_all add: issue_request_def dict_get_def)
  have t: "event_text ''issues'' ?p = Some ?text"
    by (simp add: event_text_def dict_get_def)
  have n: "\<not> str_contains (str_lower ?text) ''adw_''" by code_simp
  from t n have h5: "\<not> ((''issues'' = ''issues'' \<and> JStr ''opened'' = JStr ''opened'')
            \<or> (''issues'' = ''issue_comment'' \<and> JStr ''opened'' = JStr ''created''))
       \<or> (\<exists>text. event_text ''issues'' ?p = Some text \<and> \<not> str_contains (str_lower text) ''adw_'')"
    by blast
  from text_event_without_trigger_is_ignored [OF h1 h2 h3 h4 h5, of sample_env empty_world]
  show ?thesis by simp
qed

text \<open>
  An opened issue with a number whose body is \<^verbatim>\<open>null\<close>, as GitHub sends it for an
  issue without a description: \<^verbatim>\<open>issue.get("body", "")\<close> gives \<^verbatim>\<open>None\<close> for the key is present (line 145),
  \<^verbatim>\<open>issue_body.lower()\<close> raises \<^verbatim>\<open>AttributeError\<close> (line 149), and the handler answers
  with the error response (lines 297 to 303), for every environment and world.
\<close>

lemma null_issue_body_raises:
  assumes "json_body req = Inr (JObj p)"
    and "x_github_event req = Some ''issues''"
    and "dict_get p ''action'' (JStr []) = JStr ''opened''"
    and "dict_get p ''issue'' (JObj []) = JObj i"
    and "truthy (dict_get i ''number'' JNull)"
    and "dict_get i ''body'' (JStr []) = JNull"
  shows "github_webhook en req w = (Inr error_response, w)"
  using assms
  by (simp add: github_webhook_def github_webhook_try_def resolve_def classify_def
        classify_issue_def stmt_defs Let_def)

text \<open>
  C6. An event whose body does not contain \<^verbatim>\<open>adw_\<close> is to be answered with the
  \<^verbatim>\<open>ignored\<close> response. The opened issue 7 whose body is \<^verbatim>\<open>null\<close> has no text, so it
  does not contain the trigger; the handler selects no workflow and launches nothing,
  but its answer is the \<^verbatim>\<open>error\<close> response, not the \<^verbatim>\<open>ignored\<close> one.
\<close>

theorem null_body_answers_error:
  "event_text ''issues''
     [(''action'', JStr ''opened''), (''issue'', JObj [(''number'', JNum 7), (''body'', JNull)])]
     = None
   \<and> fst (resolve sample_env null_body_request empty_world) = Inl AttributeError
   \<and> fst (github_webhook sample_env null_body_request empty_world) = Inr error_response
   \<and> status_of (fst (github_webhook sample_env null_body_request empty_world)) = JStr ''error''
   \<and> status_of (fst (github_webhook sample_env null_body_request empty_world))
       \<noteq> JStr ''ignored''
   \<and> launched (snd (github_webhook sample_env null_body_request empty_world)) = []"
  by (simp add: github_webhook_def github_webhook_try_def resolve_def classify_def
        classify_issue_def null_body_request_def stmt_defs dict_get_def Let_def
        event_text_def status_of_def error_response_def empty_world_def)

text \<open>
  C2. When a request is classified as \<^verbatim>\<open>adw_build\<close> without an explicit identifier and
  identifier recovery over the issue's comments returns none, the handler answers
  \<^verbatim>\<open>ignored\<close> and launches no process.
\<close>

theorem build_without_identifier_is_ignored:
  assumes "fst (classify en req w) = Inr l"
    and "workflow l = Some ''adw_build''"
    and "\<not> truthy_opt (provided_adw_id l)"
    and "find_latest_adw_id_in_issue en (issue_number l) = Inr None"
  shows "status_of (fst (github_webhook en req w)) = JStr ''ignored''
       \<and> launched (snd (github_webhook en req w)) = launched w"
proof -
  obtain w1 where c: "classify en req w = (Inr l, w1)"
    using assms(1) by (cases "classify en req w") simp
  obtain r w2 where a: "autodetect en l w1 = (r, w2)" by (cases "autodetect en l w1")
  with assms(2-4) have r: "r = Inr (l\<lparr>workflow := None\<rparr>)"
    by (auto simp: autodetect_def stmt_defs split: sum.splits prod.splits)
  from a r c have res: "resolve en req w = (Inr (l\<lparr>workflow := None\<rparr>), w2)"
    by (simp add: resolve_def bindM_def)
  have "launched w2 = launched w"
    using autodetect_frame[OF a] classify_frame[OF c] by simp
  moreover have "\<not> truthy_opt (workflow (l\<lparr>workflow := None\<rparr>))" by simp
  ultimately show ?thesis
    using webhook_no_workflow[OF res] by (simp add: status_simps)
qed

theorem build_without_identifier_is_ignored_witness:
  "status_of (fst (github_webhook offline_env (comment_request ''adw_build'') empty_world))
     = JStr ''ignored''
   \<and> launched (snd (github_webhook offline_env (comment_request ''adw_build'') empty_world))
     = launched empty_world"
proof -
  let ?l = "\<lparr>event_type = ''issue_comment'', action = JStr ''created'', issue_number = JNum 7,
             workflow = Some ''adw_build'', provided_adw_id = None,
             trigger_reason = ''Comment with adw_build workflow'',
             content_to_check = JStr ''adw_build''\<rparr>"
  have h1: "fst (classify offline_env (comment_request ''adw_build'') empty_world) = Inr ?l"
    by code_simp
  have h2: "workflow ?l = Some ''adw_build''" and h3: "\<not> truthy_opt (provided_adw_id ?l)"
    by simp_all
  have h4: "find_latest_adw_id_in_issue offline_env (issue_number ?l) = Inr None"
    by code_simp
  show ?thesis by (rule build_without_identifier_is_ignored [OF h1 h2 h3 h4])
qed

section \<open>The handler: responses\<close>

text \<open>
  C5. The handler always returns, so the framework answers with status 200 and the
  returned JSON object: on acceptance an object with exactly the fields \<^verbatim>\<open>status\<close>,
  \<^verbatim>\<open>issue\<close>, \<^verbatim>\<open>adw_id\<close>, \<^verbatim>\<open>workflow\<close>, \<^verbatim>\<open>message\<close>, \<^verbatim>\<open>reason\<close>, \<^verbatim>\<open>logs\<close>;
  otherwise status \<^verbatim>\<open>ignored\<close> with a \<^verbatim>\<open>reason\<close>, or status \<^verbatim>\<open>error\<close> with a
  \<^verbatim>\<open>message\<close>. Every exception that leaves the \<^verbatim>\<open>try\<close> block is turned into the
  \<^verbatim>\<open>error\<close> response, and what was done before it stays done.
\<close>

theorem webhook_always_answers:
  "http_status (fst (github_webhook en req w)) = 200
   \<and> ((status_of (fst (github_webhook en req w)) = JStr ''accepted''
        \<and> fields_of (fst (github_webhook en req w)) =
            [''status'', ''issue'', ''adw_id'', ''workflow'', ''message'', ''reason'', ''logs''])
      \<or> (status_of (fst (github_webhook en req w)) = JStr ''ignored''
        \<and> fields_of (fst (github_webhook en req w)) = [''status'', ''reason''])
      \<or> (status_of (fst (github_webhook en req w)) = JStr ''error''
        \<and> fields_of (fst (github_webhook en req w)) = [''status'', ''message'']))
   \<and> (\<forall>e w1. github_webhook_try en req w = (Inl e, w1) \<longrightarrow>
         github_webhook en req w = (Inr error_response, w1))"
proof -
  from webhook_shape[of en req w] obtain resp w1 where
    r: "github_webhook en req w = (Inr resp, w1)"
    and s: "resp = error_response \<or> (\<exists>ev a. resp = ignored_response ev a)
        \<or> (\<exists>n ns i wn rs. resp = accepted_response n ns i wn rs)"
    by blast
  have 1: "http_status (fst (github_webhook en req w)) = 200"
    using r by (simp add: http_status_def)
  have 2: "(status_of (Inr resp) = JStr ''accepted''
        \<and> fields_of (Inr resp) =
            [''status'', ''issue'', ''adw_id'', ''workflow'', ''message'', ''reason'', ''logs''])
      \<or> (status_of (Inr resp) = JStr ''ignored'' \<and> fields_of (Inr resp) = [''status'', ''reason''])
      \<or> (status_of (Inr resp) = JStr ''error'' \<and> fields_of (Inr resp) = [''status'', ''message''])"
    using s by (auto simp: status_simps fields_simps)
  have 3: "\<forall>e w1. github_webhook_try en req w = (Inl e, w1) \<longrightarrow>
         github_webhook en req w = (Inr error_response, w1)"
    by (simp add: github_webhook_def)
  from 1 2 3 r show ?thesis by simp
qed

theorem webhook_always_answers_witness:
  "github_webhook sample_env garbage_request empty_world = (Inr error_response, empty_world)"
proof -
  have "github_webhook_try sample_env garbage_request empty_world
        = (Inl (OtherError ''JSONDecodeError''), empty_world)"
    by (simp add: github_webhook_try_def resolve_def classify_def garbage_request_def stmt_defs)
  with webhook_always_answers [of sample_env garbage_request empty_world]
  show ?thesis by blast
qed

section \<open>The handler: state and launch\<close>

lemma provided_identifier_replaces_record:
  assumes "fst (resolve en req w) = Inr l"
    and "workflow l = Some wfl" and "wfl \<noteq> []"
    and "provided_adw_id l = Some p" and "p \<noteq> []"
  shows "state_files (snd (github_webhook en req w)) =
           (state_files w)(p \<mapsto>
              [''adw_id'' \<mapsto> JStr p,
               ''issue_number'' \<mapsto> JStr (py_str (container_repr en) (issue_number l))])"
proof -
  obtain w1 where res: "resolve en req w = (Inr l, w1)"
    using assms(1) by (cases "resolve en req w") simp
  obtain r w2 where la: "launch en l wfl w1 = (r, w2)" by (cases "launch en l wfl w1")
  have sf: "state_files w1 = state_files w" using resolve_frame[OF res] by simp
  have w2: "state_files (snd (github_webhook en req w)) = state_files w2"
    using webhook_resolve_Inr[OF res] dispatch_launches[OF assms(2,3), of en w1] la
    by (cases r) simp_all
  have "state_files w2 =
      (state_files w)(p \<mapsto>
         [''adw_id'' \<mapsto> JStr p,
          ''issue_number'' \<mapsto> JStr (py_str (container_repr en) (issue_number l))])"
    using launch_provided_state[OF la assms(4,5)]
    by (simp only: sf minimal_record_saved constructed_state_has_no_branch if_False)
  with w2 show ?thesis by simp
qed

lemma provided_identifier_loses_branch:
  assumes "fst (resolve en req w) = Inr l"
    and "workflow l = Some wfl" and "wfl \<noteq> []"
    and "provided_adw_id l = Some p" and "p \<noteq> []"
  shows "persisted_field (snd (github_webhook en req w)) p ''branch_name'' = None"
  using provided_identifier_replaces_record[OF assms]
  by (simp add: persisted_field_def state_load_def)


text \<open>
  C10. When the identifier of a launch is freshly generated (a workflow is resolved, no
  identifier was provided in the text and none recovered), the handler leaves the
  persisted state as it was. For every request, persisted state differs after the
  handler only when a workflow was resolved together with a provided or recovered
  identifier.
\<close>

theorem fresh_identifier_writes_no_state:
  assumes "fst (resolve en req w) = Inr l"
    and "truthy_opt (workflow l)" and "\<not> truthy_opt (provided_adw_id l)"
  shows "state_files (snd (github_webhook en req w)) = state_files w
       \<and> (\<forall>en' req' w'.
            state_files (snd (github_webhook en' req' w')) \<noteq> state_files w' \<longrightarrow>
            (\<exists>l'. fst (resolve en' req' w') = Inr l' \<and> truthy_opt (workflow l')
                  \<and> truthy_opt (provided_adw_id l')))"
proof -
  have gen: "state_files (snd (github_webhook en' req' w')) = state_files w'"
    if nl: "\<And>l'. fst (resolve en' req' w') = Inr l' \<Longrightarrow>
                 \<not> (truthy_opt (workflow l') \<and> truthy_opt (provided_adw_id l'))"
    for en' req' w'
  proof (cases "resolve en' req' w'")
    case (Pair r w1)
    have sf: "state_files w1 = state_files w'" using resolve_frame[OF Pair] by simp
    show ?thesis
    proof (cases r)
      case (Inl e)
      with Pair webhook_resolve_Inl show ?thesis by (simp add: sf)
    next
      case (Inr l')
      with Pair have res: "resolve en' req' w' = (Inr l', w1)" by simp
      then have "fst (resolve en' req' w') = Inr l'" by simp
      from nl[OF this] have c: "\<not> truthy_opt (workflow l') \<or> \<not> truthy_opt (provided_adw_id l')"
        by blast
      show ?thesis
      proof (cases "truthy_opt (workflow l')")
        case False
        from webhook_no_workflow[OF res this] show ?thesis by (simp add: sf)
      next
        case True
        with c have np: "\<not> truthy_opt (provided_adw_id l')" by blast
        from True obtain wfl where wf: "workflow l' = Some wfl" "wfl \<noteq> []"
          by (cases "workflow l'") auto
        obtain r2 w2 where la: "launch en' l' wfl w1 = (r2, w2)"
          by (cases "launch en' l' wfl w1")
        have "state_files (snd (github_webhook en' req' w')) = state_files w2"
          using webhook_resolve_Inr[OF res] dispatch_launches[OF wf, of en' w1] la
          by (cases r2) simp_all
        with launch_fresh_state[OF la np] sf show ?thesis by simp
      qed
    qed
  qed
  have 1: "state_files (snd (github_webhook en req w)) = state_files w"
    using assms by (intro gen) auto
  have 2: "\<forall>en' req' w'.
            state_files (snd (github_webhook en' req' w')) \<noteq> state_files w' \<longrightarrow>
            (\<exists>l'. fst (resolve en' req' w') = Inr l' \<and> truthy_opt (workflow l')
                  \<and> truthy_opt (provided_adw_id l'))"
    using gen by blast
  from 1 2 show ?thesis by blast
qed

theorem fresh_identifier_writes_no_state_witness:
  "state_files (snd (github_webhook sample_env
      (issue_request ''please run adw_plan_build for this'') empty_world))
   = state_files empty_world"
proof -
  let ?l = "\<lparr>event_type = ''issues'', action = JStr ''opened'', issue_number = JNum 7,
             workflow = Some ''adw_plan_build'', provided_adw_id = None,
             trigger_reason = ''New issue with adw_plan_build workflow'',
             content_to_check = JStr ''please run adw_plan_build for this''\<rparr>"
  have h1: "fst (resolve sample_env (issue_request ''please run adw_plan_build for this'')
              empty_world) = Inr ?l"
    by code_simp
  have h2: "truthy_opt (workflow ?l)" and h3: "\<not> truthy_opt (provided_adw_id ?l)"
    by simp_all
  from fresh_identifier_writes_no_state [OF h1 h2 h3] show ?thesis by blast
qed



end
